theory Spec2Isabelle
  imports Complex_Main "HOL-Library.AList" "HOL-Library.Multiset"
begin

section \<open>Reliability primitives (lib/utils/retry.ts)\<close>

subsection \<open>Thrown values and wrapped operations\<close>

text \<open>
  A JavaScript \<^verbatim>\<open>catch\<close> receives any value. The retry loop distinguishes instances of
  \<^verbatim>\<open>Error\<close> from everything else (\<^verbatim>\<open>error instanceof Error\<close>), so both kinds are kept:
  \<^item> \<open>Error msg\<close> is \<^verbatim>\<open>new Error(msg)\<close>;
  \<^item> \<open>LLMError n orig\<close> is \<^verbatim>\<open>new LLMError(`Failed after ${n} retries`, {originalError: orig})\<close>,
    where \<open>orig = None\<close> stands for \<^verbatim>\<open>undefined\<close>; \<^verbatim>\<open>LLMError\<close> extends \<^verbatim>\<open>AppError\<close>, which
    extends \<^verbatim>\<open>Error\<close>;
  \<^item> \<open>Thrown_value v\<close> is any thrown value that is not an \<^verbatim>\<open>Error\<close> (a string, a plain object).
\<close>

datatype thrown =
    Error string
  | LLMError int "thrown option"
  | Thrown_value string

fun instanceof_Error :: "thrown \<Rightarrow> bool" where
  "instanceof_Error (Error _) = True"
| "instanceof_Error (LLMError _ _) = True"
| "instanceof_Error (Thrown_value _) = False"

text \<open>
  The wrapped \<^verbatim>\<open>fn: () => Promise<T>\<close> is a closure over mutable surroundings: each invocation
  may change them and settle differently from the one before. It is a function from the
  surroundings \<open>'s\<close> before the invocation to its settlement (\<open>Inl\<close> a rejection, \<open>Inr\<close> a
  fulfilment) and the surroundings after it.
\<close>

type_synonym ('s, 'a) operation = "'s \<Rightarrow> (thrown + 'a) \<times> 's"

subsection \<open>JavaScript numbers\<close>

text \<open>
  The delay options are JavaScript numbers, IEEE 754 double-precision values, and the loop
  computes on them with the language's \<^verbatim>\<open>*\<close>, \<^verbatim>\<open>Math.pow\<close> and \<^verbatim>\<open>Math.min\<close>. The loop is written
  over any representation \<open>'n\<close> of numbers, with the three operations as they act on it.
  The exponent of \<^verbatim>\<open>Math.pow\<close> is the attempt index, which is never negative.
\<close>

record 'n arithmetic =
  times :: "'n \<Rightarrow> 'n \<Rightarrow> 'n"
  Math_pow :: "'n \<Rightarrow> nat \<Rightarrow> 'n"
  Math_min :: "'n \<Rightarrow> 'n \<Rightarrow> 'n"

text \<open>
  The numbers of the language are one such representation: the IEEE 754 double-precision
  values. A finite double is a rational number, \<open>Num\<close> of its value (\<open>Num 0\<close> stands for both
  zeros); the others are the two infinities and \<^verbatim>\<open>NaN\<close>. The finite doubles are the integer
  multiples \<open>m * 2 ^ e\<close> with \<open>\<bar>m\<bar> < 2 ^ 53\<close> and \<open>- 1074 \<le> e \<le> 971\<close>.

  \<open>to_double v\<close> is the double an exact result \<open>v\<close> is rounded to (round to nearest, ties to
  even): with \<open>2 ^ k \<le> \<bar>v\<bar> < 2 ^ (k + 1)\<close> the doubles around \<open>v\<close> are the multiples of
  \<open>2 ^ (k - 52)\<close>, and of \<open>2 ^ (- 1074)\<close> where that is larger (the subnormal range); \<open>v\<close> goes
  to the nearest multiple, to the one with the even multiplier when two are equally near,
  and to an infinity when that multiple is \<open>2 ^ 1024\<close> in magnitude.
\<close>

datatype js_number = Num rat | Infinity | Minus_Infinity | NaN

text \<open>The number of binary digits of a positive integer.\<close>

function bit_length :: "int \<Rightarrow> nat" where
  "bit_length n = (if n \<le> 0 then 0 else Suc (bit_length (n div 2)))"
  by pat_completeness auto
termination
  by (relation "measure nat") auto

declare bit_length.simps [simp del]

definition pow2 :: "int \<Rightarrow> rat" where
  "pow2 e = (if e \<ge> 0 then of_int (2 ^ nat e) else 1 / of_int (2 ^ nat (- e)))"

text \<open>For \<open>v > 0\<close>, the \<open>k\<close> with \<open>2 ^ k \<le> v < 2 ^ (k + 1)\<close>.\<close>

definition floor_log2 :: "rat \<Rightarrow> int" where
  "floor_log2 v =
     (if v \<ge> 1 then int (bit_length \<lfloor>v\<rfloor>) - 1 else - int (bit_length (\<lceil>1 / v\<rceil> - 1)))"

definition round_half_even :: "rat \<Rightarrow> int" where
  "round_half_even y =
     (let f = \<lfloor>y\<rfloor>; d = y - of_int f
      in if d < 1 / 2 then f else if d > 1 / 2 then f + 1 else if even f then f else f + 1)"

definition to_double :: "rat \<Rightarrow> js_number" where
  "to_double v =
     (if v = 0 then Num 0
      else let ulp = pow2 (max (floor_log2 \<bar>v\<bar> - 52) (- 1074));
               r = of_int (round_half_even (v / ulp)) * ulp
           in if \<bar>r\<bar> \<ge> of_int (2 ^ 1024) then (if v > 0 then Infinity else Minus_Infinity)
              else Num r)"

text \<open>The product of two doubles is the exact product, rounded.\<close>

fun times64 :: "js_number \<Rightarrow> js_number \<Rightarrow> js_number" where
  "times64 NaN _ = NaN"
| "times64 _ NaN = NaN"
| "times64 (Num x) (Num y) = to_double (x * y)"
| "times64 (Num x) Infinity =
     (if x = 0 then NaN else if x > 0 then Infinity else Minus_Infinity)"
| "times64 (Num x) Minus_Infinity =
     (if x = 0 then NaN else if x > 0 then Minus_Infinity else Infinity)"
| "times64 Infinity (Num y) =
     (if y = 0 then NaN else if y > 0 then Infinity else Minus_Infinity)"
| "times64 Minus_Infinity (Num y) =
     (if y = 0 then NaN else if y > 0 then Minus_Infinity else Infinity)"
| "times64 Infinity Infinity = Infinity"
| "times64 Infinity Minus_Infinity = Minus_Infinity"
| "times64 Minus_Infinity Infinity = Minus_Infinity"
| "times64 Minus_Infinity Minus_Infinity = Infinity"

text \<open>\<^verbatim>\<open>Math.pow(x, 0)\<close> is 1 for every \<open>x\<close>, \<^verbatim>\<open>NaN\<close> included. For other exponents the
  language leaves the accuracy of \<^verbatim>\<open>Math.pow\<close> to the implementation; here it is the exact
  power, rounded. The properties below rest on it only where the exact power is a double.\<close>

fun pow64 :: "js_number \<Rightarrow> nat \<Rightarrow> js_number" where
  "pow64 x 0 = Num 1"
| "pow64 NaN (Suc n) = NaN"
| "pow64 Infinity (Suc n) = Infinity"
| "pow64 Minus_Infinity (Suc n) = (if odd (Suc n) then Minus_Infinity else Infinity)"
| "pow64 (Num x) (Suc n) = to_double (x ^ Suc n)"

fun min64 :: "js_number \<Rightarrow> js_number \<Rightarrow> js_number" where
  "min64 NaN _ = NaN"
| "min64 _ NaN = NaN"
| "min64 Minus_Infinity _ = Minus_Infinity"
| "min64 _ Minus_Infinity = Minus_Infinity"
| "min64 Infinity y = y"
| "min64 x Infinity = x"
| "min64 (Num x) (Num y) = Num (min x y)"

definition binary64 :: "js_number arithmetic" where
  "binary64 = \<lparr>times = times64, Math_pow = pow64, Math_min = min64\<rparr>"

subsection \<open>withRetry\<close>

text \<open>
  \<open>RetryOptions\<close> is the record \<^verbatim>\<open>opts = { ...defaultOptions, ...options }\<close> the loop reads, all
  five fields present. \<^verbatim>\<open>maxRetries\<close> is a count of attempts, an integer.
\<close>

record 'n RetryOptions =
  maxRetries :: int
  baseDelay :: 'n
  maxDelay :: 'n
  backoffMultiplier :: 'n
  shouldRetry :: "thrown \<Rightarrow> bool"

text \<open>What the loop does that its caller can observe besides the result: it invokes
  \<^verbatim>\<open>fn()\<close> and it awaits \<^verbatim>\<open>sleep(delay)\<close>.\<close>

datatype 'n event = Call | Sleep 'n

text \<open>\<^verbatim>\<open>Math.min(opts.baseDelay * Math.pow(opts.backoffMultiplier, attempt), opts.maxDelay)\<close>\<close>

definition delay :: "'n arithmetic \<Rightarrow> 'n RetryOptions \<Rightarrow> int \<Rightarrow> 'n" where
  "delay js opts attempt =
     Math_min js
       (times js (baseDelay opts) (Math_pow js (backoffMultiplier opts) (nat attempt)))
       (maxDelay opts)"

text \<open>
  The \<^verbatim>\<open>for (let attempt = 0; attempt < opts.maxRetries; attempt++)\<close> loop, entered at
  \<open>attempt\<close> with the current \<open>lastError\<close>. The result carries the events of this and all
  later iterations in program order.
\<close>

function withRetry_loop ::
  "'n arithmetic \<Rightarrow> 'n RetryOptions \<Rightarrow> ('s, 'a) operation \<Rightarrow> int \<Rightarrow> thrown option \<Rightarrow> 's
     \<Rightarrow> (thrown + 'a) \<times> 'n event list \<times> 's" where
  "withRetry_loop js opts fn attempt lastError s =
     (if attempt < maxRetries opts then
        (case fn s of
           (Inr v, s') \<Rightarrow> (Inr v, [Call], s')
         | (Inl error, s') \<Rightarrow>
             let lastError' =
                   Some (if instanceof_Error error then error else Error ''Unknown error'')
             in
               if \<not> shouldRetry opts error then (Inl error, [Call], s')
               else if attempt < maxRetries opts - 1 then
                 (case withRetry_loop js opts fn (attempt + 1) lastError' s' of
                    (r, evs, s'') \<Rightarrow> (r, Call # Sleep (delay js opts attempt) # evs, s''))
               else
                 (case withRetry_loop js opts fn (attempt + 1) lastError' s' of
                    (r, evs, s'') \<Rightarrow> (r, Call # evs, s'')))
      else (Inl (LLMError (maxRetries opts) lastError), [], s))"
  by pat_completeness auto
termination
  by (relation "measure (\<lambda>(js, opts, fn, attempt, lastError, s). nat (maxRetries opts - attempt))")
     auto

declare withRetry_loop.simps [simp del]

definition withRetry ::
  "'n arithmetic \<Rightarrow> ('s, 'a) operation \<Rightarrow> 'n RetryOptions \<Rightarrow> 's
     \<Rightarrow> (thrown + 'a) \<times> 'n event list \<times> 's" where
  "withRetry js fn opts s = withRetry_loop js opts fn 0 None s"

subsection \<open>CircuitBreaker\<close>

datatype breaker_state = Closed | Open | HalfOpen

text \<open>The private fields of the class and its two constructor parameters.\<close>

record CircuitBreaker =
  failures :: int
  lastFailureTime :: int
  state :: breaker_state
  threshold :: int
  timeout :: int

text \<open>\<^verbatim>\<open>new CircuitBreaker(threshold, timeout)\<close>\<close>

definition new_CircuitBreaker :: "int \<Rightarrow> int \<Rightarrow> CircuitBreaker" where
  "new_CircuitBreaker th t =
     \<lparr>failures = 0, lastFailureTime = 0, state = Closed, threshold = th, timeout = t\<rparr>"

definition onSuccess :: "CircuitBreaker \<Rightarrow> CircuitBreaker" where
  "onSuccess cb = cb\<lparr>failures := 0, state := Closed\<rparr>"

text \<open>\<open>t\<close> is the value of \<^verbatim>\<open>Date.now()\<close> read inside \<^verbatim>\<open>onFailure\<close>.\<close>

definition onFailure :: "int \<Rightarrow> CircuitBreaker \<Rightarrow> CircuitBreaker" where
  "onFailure t cb =
     (let cb1 = cb\<lparr>failures := failures cb + 1, lastFailureTime := t\<rparr>
      in if failures cb1 \<ge> threshold cb1 then cb1\<lparr>state := Open\<rparr> else cb1)"

definition circuit_open_error :: thrown where
  "circuit_open_error = Error ''Circuit breaker is open. Service temporarily unavailable.''"

text \<open>
  \<^verbatim>\<open>execute\<close> runs in two parts. The first, up to the invocation of \<^verbatim>\<open>fn\<close>, runs when the call
  arrives: \<open>gate t cb\<close>, with \<open>t\<close> the value of \<^verbatim>\<open>Date.now()\<close> at that moment, is \<open>Inl\<close> the
  error thrown there (\<^verbatim>\<open>fn\<close> is then not invoked) or \<open>Inr\<close> the breaker as \<^verbatim>\<open>fn\<close> is invoked.
  The second runs when the promise \<^verbatim>\<open>fn()\<close> settles, which is when \<^verbatim>\<open>await\<close> resumes the
  call: \<open>settle r t cb\<close> is \<^verbatim>\<open>onSuccess\<close> after a fulfilment and \<^verbatim>\<open>onFailure\<close> after a rejection,
  on the breaker \<open>cb\<close> as it is at that moment.
\<close>

definition gate :: "int \<Rightarrow> CircuitBreaker \<Rightarrow> thrown + CircuitBreaker" where
  "gate t cb =
     (if state cb = Open then
        (if t - lastFailureTime cb > timeout cb then Inr (cb\<lparr>state := HalfOpen\<rparr>)
         else Inl circuit_open_error)
      else Inr cb)"

definition settle :: "thrown + 'a \<Rightarrow> int \<Rightarrow> CircuitBreaker \<Rightarrow> CircuitBreaker" where
  "settle r t cb = (case r of Inr result \<Rightarrow> onSuccess cb | Inl error \<Rightarrow> onFailure t cb)"

definition reset :: "CircuitBreaker \<Rightarrow> CircuitBreaker" where
  "reset cb = cb\<lparr>failures := 0, lastFailureTime := 0, state := Closed\<rparr>"

text \<open>\<^verbatim>\<open>getState()\<close>: the state, the failure count and the time of the last failure.\<close>

definition getState :: "CircuitBreaker \<Rightarrow> breaker_state \<times> int \<times> int" where
  "getState cb = (state cb, failures cb, lastFailureTime cb)"

text \<open>
  The operation a breaker guards is a closure that may hold the breaker and read it with
  \<^verbatim>\<open>getState()\<close> while it runs: it is a function of what \<^verbatim>\<open>getState()\<close> returns once the call is
  let through. It does not itself call \<^verbatim>\<open>execute\<close> or \<^verbatim>\<open>reset\<close> on that breaker.
\<close>

type_synonym ('s, 'a) guarded_operation = "breaker_state \<times> int \<times> int \<Rightarrow> ('s, 'a) operation"

text \<open>
  A call of \<^verbatim>\<open>execute\<close> with nothing else touching the breaker between its arrival and the
  settlement of \<^verbatim>\<open>fn()\<close>. \<open>now\<close> reads the clock (\<^verbatim>\<open>Date.now()\<close>) off the surroundings.
\<close>

definition execute ::
  "('s \<Rightarrow> int) \<Rightarrow> ('s, 'a) guarded_operation \<Rightarrow> CircuitBreaker \<Rightarrow> 's
     \<Rightarrow> (thrown + 'a) \<times> CircuitBreaker \<times> 's" where
  "execute now fn cb s =
     (case gate (now s) cb of
        Inl error \<Rightarrow> (Inl error, cb, s)
      | Inr cb1 \<Rightarrow>
          (case fn (getState cb1) s of (r, s') \<Rightarrow> (r, settle r (now s') cb1, s')))"

text \<open>A caller's use of one breaker over time: calls of \<^verbatim>\<open>execute\<close> and of \<^verbatim>\<open>reset\<close>, one after
  the other (each \<^verbatim>\<open>execute\<close> awaited before the next call is made), and between them whatever
  else changes the surroundings without touching the breaker (\<open>Meanwhile\<close>: time passes).\<close>

datatype ('s, 'a) breaker_call =
    Execute "('s, 'a) guarded_operation"
  | Reset
  | Meanwhile "'s \<Rightarrow> 's"

fun breaker_calls ::
  "('s \<Rightarrow> int) \<Rightarrow> ('s, 'a) breaker_call list \<Rightarrow> CircuitBreaker \<Rightarrow> 's \<Rightarrow> CircuitBreaker \<times> 's" where
  "breaker_calls now [] cb s = (cb, s)"
| "breaker_calls now (Execute fn # cs) cb s =
     (case execute now fn cb s of (r, cb', s') \<Rightarrow> breaker_calls now cs cb' s')"
| "breaker_calls now (Reset # cs) cb s = breaker_calls now cs (reset cb) s"
| "breaker_calls now (Meanwhile change # cs) cb s = breaker_calls now cs cb (change s)"

text \<open>
  Calls of \<^verbatim>\<open>execute\<close> that are not awaited one by one overlap: a call may arrive while the
  operations of earlier calls are still pending. What happens to the breaker is then a
  sequence of these events, each at the clock value the breaker reads there:
  \<^item> \<open>Arrives t\<close>: a call of \<^verbatim>\<open>execute\<close> arrives at time \<open>t\<close>;
  \<^item> \<open>Fulfils\<close>: the operation of a pending call fulfils;
  \<^item> \<open>Rejects t\<close>: the operation of a pending call rejects at time \<open>t\<close>;
  \<^item> \<open>Resets\<close>: \<^verbatim>\<open>reset()\<close> is called.

  The breaker is paired with the number of calls let through and not yet settled; an
  event that settles a call when none is pending cannot happen (\<open>None\<close>).
\<close>

datatype breaker_event = Arrives int | Fulfils | Rejects int | Resets

fun breaker_step :: "breaker_event \<Rightarrow> CircuitBreaker \<times> nat \<Rightarrow> (CircuitBreaker \<times> nat) option" where
  "breaker_step (Arrives t) (cb, pending) =
     (case gate t cb of
        Inl error \<Rightarrow> Some (cb, pending)
      | Inr cb1 \<Rightarrow> Some (cb1, Suc pending))"
| "breaker_step Fulfils (cb, pending) =
     (if pending = 0 then None else Some (onSuccess cb, pending - 1))"
| "breaker_step (Rejects t) (cb, pending) =
     (if pending = 0 then None else Some (onFailure t cb, pending - 1))"
| "breaker_step Resets (cb, pending) = Some (reset cb, pending)"

fun breaker_steps ::
  "breaker_event list \<Rightarrow> CircuitBreaker \<times> nat \<Rightarrow> (CircuitBreaker \<times> nat) option" where
  "breaker_steps [] c = Some c"
| "breaker_steps (ev # evs) c =
     (case breaker_step ev c of None \<Rightarrow> None | Some c' \<Rightarrow> breaker_steps evs c')"

section \<open>Storage contract (lib/storage/interface.ts)\<close>

text \<open>
  A \<^verbatim>\<open>Date\<close> is its \<^verbatim>\<open>getTime()\<close> value, the milliseconds since the epoch. The local adapter
  writes dates as ISO-8601 strings (\<^verbatim>\<open>JSON.stringify\<close>) and rebuilds them with \<^verbatim>\<open>new Date\<close>,
  the remote adapter does the same through \<^verbatim>\<open>toISOString\<close>; both keep the millisecond
  value of a valid date, so the stored and the reread date are the same integer.
\<close>

type_synonym Date = int

datatype role = User | Assistant | System

text \<open>The \<^verbatim>\<open>input\<close> and \<^verbatim>\<open>output\<close> of a tool call have type \<^verbatim>\<open>any\<close>; they are kept as their JSON text.\<close>

record toolCall =
  tool :: string
  tool_input :: string
  tool_output :: string

text \<open>An optional property is an \<open>option\<close>: \<open>None\<close> is \<^verbatim>\<open>undefined\<close> (the property is absent).
  \<^verbatim>\<open>number\<close> fields hold integers.\<close>

record message_metadata =
  tokens :: "int option"
  model :: "string option"
  toolCalls :: "toolCall list option"
  error_text :: "string option"

record Message =
  msg_id :: string
  role :: role
  content :: string
  timestamp :: Date
  msg_metadata :: "message_metadata option"

record conversation_metadata =
  totalTokens :: "int option"
  messageCount :: "int option"
  userId :: "string option"

record Conversation =
  conv_id :: string
  title :: "string option"
  messages :: "Message list"
  createdAt :: Date
  updatedAt :: Date
  conv_metadata :: "conversation_metadata option"

text \<open>\<^verbatim>\<open>Partial<Message>\<close> and \<^verbatim>\<open>Partial<Conversation>\<close>: every property optional, \<open>None\<close> when
  the caller does not supply it.\<close>

record Partial_Message =
  pm_id :: "string option"
  pm_role :: "role option"
  pm_content :: "string option"
  pm_timestamp :: "Date option"
  pm_metadata :: "message_metadata option"

record Partial_Conversation =
  pc_id :: "string option"
  pc_title :: "string option"
  pc_messages :: "Message list option"
  pc_createdAt :: "Date option"
  pc_updatedAt :: "Date option"
  pc_metadata :: "conversation_metadata option"

text \<open>
  Both adapters throw plain \<^verbatim>\<open>Error\<close> objects told apart by their message only:
  \<^item> \<open>ConversationNotFound i\<close>: \<^verbatim>\<open>`Conversation ${i} not found`\<close>;
  \<^item> \<open>MessageNotFound i\<close>: \<^verbatim>\<open>`Message ${i} not found`\<close>;
  \<^item> \<open>SaveFailed\<close>: \<^verbatim>\<open>'Failed to save to localStorage'\<close>;
  \<^item> \<open>NoUserId\<close>: \<^verbatim>\<open>'Cannot clear all without userId'\<close>;
  \<^item> \<open>Failed what msg\<close>: \<^verbatim>\<open>`Failed to ${what}: ${error.message}`\<close>, the remote adapter's wrapping
    of an error reported by the backing store.

  The JavaScript runtime adds \<open>TypeError p\<close>: reading the property \<open>p\<close> of \<^verbatim>\<open>undefined\<close>.
\<close>

datatype storage_error =
    ConversationNotFound string
  | MessageNotFound string
  | SaveFailed
  | NoUserId
  | Failed string string
  | TypeError string

subsection \<open>JavaScript helpers the adapters use\<close>

text \<open>\<^verbatim>\<open>n || 0\<close> on an optional number: \<^verbatim>\<open>undefined\<close> and \<^verbatim>\<open>0\<close> both give \<^verbatim>\<open>0\<close>.\<close>

definition or_zero :: "int option \<Rightarrow> int" where
  "or_zero n = (case n of None \<Rightarrow> 0 | Some v \<Rightarrow> v)"

text \<open>\<^verbatim>\<open>title || 'New Conversation'\<close>: \<^verbatim>\<open>undefined\<close> and the empty string are falsy.\<close>

definition title_or_default :: "string option \<Rightarrow> string" where
  "title_or_default t =
     (case t of None \<Rightarrow> ''New Conversation''
      | Some v \<Rightarrow> if v = [] then ''New Conversation'' else v)"

text \<open>Truthiness of an optional string, as in \<^verbatim>\<open>if (this.userId)\<close>.\<close>

definition truthy :: "string option \<Rightarrow> bool" where
  "truthy u = (case u of None \<Rightarrow> False | Some v \<Rightarrow> v \<noteq> [])"

text \<open>\<^verbatim>\<open>Array.prototype.findIndex\<close>; \<open>None\<close> is the result \<^verbatim>\<open>-1\<close>.\<close>

fun findIndex :: "('a \<Rightarrow> bool) \<Rightarrow> 'a list \<Rightarrow> nat option" where
  "findIndex P [] = None"
| "findIndex P (x # xs) = (if P x then Some 0 else map_option Suc (findIndex P xs))"

text \<open>\<^verbatim>\<open>xs.splice(index, 1)\<close>, for \<open>index\<close> in range.\<close>

definition splice1 :: "nat \<Rightarrow> 'a list \<Rightarrow> 'a list" where
  "splice1 index xs = take index xs @ drop (Suc index) xs"

text \<open>\<^verbatim>\<open>Object.assign(target, updates)\<close> copies every property present in \<open>updates\<close> over the
  target's property of that name and leaves the others.\<close>

definition assign_Message :: "Message \<Rightarrow> Partial_Message \<Rightarrow> Message" where
  "assign_Message m u =
     \<lparr>msg_id = (case pm_id u of None \<Rightarrow> msg_id m | Some v \<Rightarrow> v),
      role = (case pm_role u of None \<Rightarrow> role m | Some v \<Rightarrow> v),
      content = (case pm_content u of None \<Rightarrow> content m | Some v \<Rightarrow> v),
      timestamp = (case pm_timestamp u of None \<Rightarrow> timestamp m | Some v \<Rightarrow> v),
      msg_metadata = (case pm_metadata u of None \<Rightarrow> msg_metadata m | Some v \<Rightarrow> Some v)\<rparr>"

definition assign_Conversation :: "Conversation \<Rightarrow> Partial_Conversation \<Rightarrow> Conversation" where
  "assign_Conversation c u =
     \<lparr>conv_id = (case pc_id u of None \<Rightarrow> conv_id c | Some v \<Rightarrow> v),
      title = (case pc_title u of None \<Rightarrow> title c | Some v \<Rightarrow> Some v),
      messages = (case pc_messages u of None \<Rightarrow> messages c | Some v \<Rightarrow> v),
      createdAt = (case pc_createdAt u of None \<Rightarrow> createdAt c | Some v \<Rightarrow> v),
      updatedAt = (case pc_updatedAt u of None \<Rightarrow> updatedAt c | Some v \<Rightarrow> v),
      conv_metadata = (case pc_metadata u of None \<Rightarrow> conv_metadata c | Some v \<Rightarrow> Some v)\<rparr>"

text \<open>\<^verbatim>\<open>{ ...metadata }\<close>: the spread of \<^verbatim>\<open>undefined\<close> is the empty object.\<close>

definition spread_metadata :: "conversation_metadata option \<Rightarrow> conversation_metadata" where
  "spread_metadata md =
     (case md of None \<Rightarrow> \<lparr>totalTokens = None, messageCount = None, userId = None\<rparr>
      | Some v \<Rightarrow> v)"

section \<open>Local adapter (lib/storage/localStorage.ts)\<close>

text \<open>
  \<^verbatim>\<open>StorageData.conversations\<close> is a JavaScript object used as a dictionary. The adapter
  iterates it with \<^verbatim>\<open>Object.values\<close>, which lists the values of string keys in the order the
  keys were first added (the keys the adapter adds are UUIDs, never array indices), so the
  dictionary is an association list in that order: assigning to a key that is present
  replaces the value in place, assigning to a new key appends, \<^verbatim>\<open>delete\<close> removes the pair.
\<close>

record StorageData =
  conversations :: "(string \<times> Conversation) list"

text \<open>
  The dictionary is a plain object (the literal \<^verbatim>\<open>{}\<close>, or what \<^verbatim>\<open>JSON.parse\<close> builds), so
  reading \<^verbatim>\<open>data.conversations[id]\<close> finds more than its own entries: under a name that
  \<^verbatim>\<open>Object.prototype\<close> defines, an object with no entry of its own has the inherited value,
  a function, or the prototype itself for \<^verbatim>\<open>__proto__\<close>. A read therefore gives
  \<^item> \<open>Own conv\<close>: the conversation stored under the key;
  \<^item> \<open>Inherited name\<close>: the value every object inherits under \<open>name\<close>, which is truthy and
    has none of the properties of a conversation;
  \<^item> \<open>Missing\<close>: \<^verbatim>\<open>undefined\<close>.
\<close>

datatype property = Missing | Own Conversation | Inherited string

definition inherited_names :: "string list" where
  "inherited_names =
     [''constructor'', ''__defineGetter__'', ''__defineSetter__'', ''hasOwnProperty'',
      ''__lookupGetter__'', ''__lookupSetter__'', ''isPrototypeOf'', ''propertyIsEnumerable'',
      ''toString'', ''valueOf'', ''__proto__'', ''toLocaleString'']"

definition get_property :: "(string \<times> Conversation) list \<Rightarrow> string \<Rightarrow> property" where
  "get_property obj key =
     (case map_of obj key of
        Some conv \<Rightarrow> Own conv
      | None \<Rightarrow> if key \<in> set inherited_names then Inherited key else Missing)"

text \<open>
  What the adapter has around it:
  \<^item> \<open>window_defined\<close>: whether \<^verbatim>\<open>typeof window !== 'undefined'\<close> (a browser);
  \<^item> \<open>stored\<close>: the document held under the key \<^verbatim>\<open>'agentic-web-chat-history'\<close>, \<open>None\<close> when
    \<^verbatim>\<open>getItem\<close> returns \<^verbatim>\<open>null\<close> or the text cannot be read back (\<^verbatim>\<open>getAll\<close> answers both with
    the empty document). \<^verbatim>\<open>JSON.parse(JSON.stringify(data))\<close> followed by the date conversion
    of \<^verbatim>\<open>getAll\<close> gives back \<open>data\<close> on this model: absent properties stay absent, the
    key order is kept and dates are their millisecond values;
  \<^item> \<open>quota_exceeded\<close>: whether \<^verbatim>\<open>localStorage.setItem\<close> throws.
\<close>

record LocalStorageEnv =
  window_defined :: bool
  stored :: "StorageData option"
  quota_exceeded :: bool

definition getAll :: "LocalStorageEnv \<Rightarrow> StorageData" where
  "getAll env =
     (if \<not> window_defined env then \<lparr>conversations = []\<rparr>
      else case stored env of
             None \<Rightarrow> \<lparr>conversations = []\<rparr>
           | Some parsed \<Rightarrow> parsed)"

definition saveAll :: "LocalStorageEnv \<Rightarrow> StorageData \<Rightarrow> (storage_error + unit) \<times> LocalStorageEnv" where
  "saveAll env data =
     (if \<not> window_defined env then (Inr (), env)
      else if quota_exceeded env then (Inl SaveFailed, env)
      else (Inr (), env\<lparr>stored := Some data\<rparr>))"

text \<open>Every operation takes the surroundings and returns its outcome with the surroundings
  after it. \<open>now\<close> is the value of the \<^verbatim>\<open>new Date()\<close> the operation evaluates.

  In \<^verbatim>\<open>saveMessage\<close> an inherited value passes the guard \<^verbatim>\<open>!data.conversations[conversationId]\<close>;
  its \<^verbatim>\<open>messages\<close> is \<^verbatim>\<open>undefined\<close>, and reading \<^verbatim>\<open>push\<close> off it is a \<^verbatim>\<open>TypeError\<close>.\<close>

definition local_saveMessage ::
  "LocalStorageEnv \<Rightarrow> Date \<Rightarrow> string \<Rightarrow> Message \<Rightarrow> (storage_error + unit) \<times> LocalStorageEnv" where
  "local_saveMessage env now conversationId message =
     (let data = getAll env in
      case get_property (conversations data) conversationId of
        Missing \<Rightarrow> (Inl (ConversationNotFound conversationId), env)
      | Inherited name \<Rightarrow> (Inl (TypeError ''push''), env)
      | Own conv \<Rightarrow>
          let conv1 = conv\<lparr>messages := messages conv @ [message]\<rparr>;
              conv2 = conv1\<lparr>updatedAt := now\<rparr>;
              conv3 = conv2\<lparr>conv_metadata := Some ((spread_metadata (conv_metadata conv2))
                        \<lparr>messageCount := Some (int (length (messages conv2))),
                         totalTokens := Some (
                           or_zero (case conv_metadata conv2 of None \<Rightarrow> None
                                    | Some md \<Rightarrow> totalTokens md) +
                           or_zero (case msg_metadata message of None \<Rightarrow> None
                                    | Some md \<Rightarrow> tokens md))\<rparr>)\<rparr>
          in saveAll env (data\<lparr>conversations :=
                 AList.update conversationId conv3 (conversations data)\<rparr>))"

text \<open>\<^verbatim>\<open>data.conversations[conversationId]?.messages || []\<close>\<close>

definition local_getMessages :: "LocalStorageEnv \<Rightarrow> string \<Rightarrow> Message list" where
  "local_getMessages env conversationId =
     (case get_property (conversations (getAll env)) conversationId of
        Missing \<Rightarrow> []
      | Inherited name \<Rightarrow> []
      | Own conv \<Rightarrow> messages conv)"

text \<open>The \<^verbatim>\<open>for (const conv of Object.values(data.conversations))\<close> loop of \<^verbatim>\<open>deleteMessage\<close>:
  \<open>Some\<close> of the dictionary after the removal when a conversation holds the message (the loop
  returns there), \<open>None\<close> when the loop runs to its end.\<close>

fun local_deleteMessage_loop ::
  "Date \<Rightarrow> string \<Rightarrow> (string \<times> Conversation) list \<Rightarrow> (string \<times> Conversation) list option" where
  "local_deleteMessage_loop now messageId [] = None"
| "local_deleteMessage_loop now messageId ((k, conv) # rest) =
     (case findIndex (\<lambda>m. msg_id m = messageId) (messages conv) of
        Some index \<Rightarrow>
          Some ((k, conv\<lparr>messages := splice1 index (messages conv), updatedAt := now\<rparr>) # rest)
      | None \<Rightarrow>
          map_option (\<lambda>rest'. (k, conv) # rest') (local_deleteMessage_loop now messageId rest))"

definition local_deleteMessage ::
  "LocalStorageEnv \<Rightarrow> Date \<Rightarrow> string \<Rightarrow> (storage_error + unit) \<times> LocalStorageEnv" where
  "local_deleteMessage env now messageId =
     (let data = getAll env in
      case local_deleteMessage_loop now messageId (conversations data) of
        Some convs \<Rightarrow> saveAll env (data\<lparr>conversations := convs\<rparr>)
      | None \<Rightarrow> (Inl (MessageNotFound messageId), env))"

text \<open>\<^verbatim>\<open>Object.assign(message, updates)\<close> on the message \<^verbatim>\<open>find\<close> returns: the first message
  with the id is changed where it stands.\<close>

fun assign_found :: "string \<Rightarrow> Partial_Message \<Rightarrow> Message list \<Rightarrow> Message list" where
  "assign_found messageId updates [] = []"
| "assign_found messageId updates (m # ms) =
     (if msg_id m = messageId then assign_Message m updates # ms
      else m # assign_found messageId updates ms)"

fun local_updateMessage_loop ::
  "Date \<Rightarrow> string \<Rightarrow> Partial_Message \<Rightarrow> (string \<times> Conversation) list
     \<Rightarrow> (string \<times> Conversation) list option" where
  "local_updateMessage_loop now messageId updates [] = None"
| "local_updateMessage_loop now messageId updates ((k, conv) # rest) =
     (case find (\<lambda>m. msg_id m = messageId) (messages conv) of
        Some message \<Rightarrow>
          Some ((k, conv\<lparr>messages := assign_found messageId updates (messages conv),
                         updatedAt := now\<rparr>) # rest)
      | None \<Rightarrow>
          map_option (\<lambda>rest'. (k, conv) # rest') (local_updateMessage_loop now messageId updates rest))"

definition local_updateMessage ::
  "LocalStorageEnv \<Rightarrow> Date \<Rightarrow> string \<Rightarrow> Partial_Message
     \<Rightarrow> (storage_error + unit) \<times> LocalStorageEnv" where
  "local_updateMessage env now messageId updates =
     (let data = getAll env in
      case local_updateMessage_loop now messageId updates (conversations data) of
        Some convs \<Rightarrow> saveAll env (data\<lparr>conversations := convs\<rparr>)
      | None \<Rightarrow> (Inl (MessageNotFound messageId), env))"

text \<open>\<^verbatim>\<open>sort((a, b) => b.updatedAt.getTime() - a.updatedAt.getTime())\<close>: descending, and
  stable (\<^verbatim>\<open>Array.prototype.sort\<close> keeps the order of elements that compare equal), as is
  \<^const>\<open>sort_key\<close>.\<close>

definition local_listConversations :: "LocalStorageEnv \<Rightarrow> Conversation list" where
  "local_listConversations env =
     sort_key (\<lambda>c. - updatedAt c) (map snd (conversations (getAll env)))"

text \<open>\<^verbatim>\<open>data.conversations[conversationId] || null\<close>: \<open>Missing\<close> is the result \<^verbatim>\<open>null\<close>.\<close>

definition local_getConversation :: "LocalStorageEnv \<Rightarrow> string \<Rightarrow> property" where
  "local_getConversation env conversationId =
     get_property (conversations (getAll env)) conversationId"

text \<open>\<open>uuid\<close> is the value \<^verbatim>\<open>uuidv4()\<close> returns, a UUID: it is neither an array index nor a
  name that objects inherit. The object literal evaluates \<^verbatim>\<open>new Date()\<close> twice, once for
  \<^verbatim>\<open>createdAt\<close> (\<open>now1\<close>) and once for \<^verbatim>\<open>updatedAt\<close> (\<open>now2\<close>).\<close>

definition local_createConversation ::
  "LocalStorageEnv \<Rightarrow> string \<Rightarrow> Date \<Rightarrow> Date \<Rightarrow> string option
     \<Rightarrow> (storage_error + Conversation) \<times> LocalStorageEnv" where
  "local_createConversation env uuid now1 now2 title_arg =
     (let data = getAll env;
          conversation =
            \<lparr>conv_id = uuid,
             title = Some (title_or_default title_arg),
             messages = [],
             createdAt = now1,
             updatedAt = now2,
             conv_metadata = Some \<lparr>totalTokens = Some 0, messageCount = Some 0, userId = None\<rparr>\<rparr>
      in case saveAll env (data\<lparr>conversations :=
                 AList.update (conv_id conversation) conversation (conversations data)\<rparr>) of
           (Inl e, env') \<Rightarrow> (Inl e, env')
         | (Inr _, env') \<Rightarrow> (Inr conversation, env'))"

text \<open>
  In \<^verbatim>\<open>updateConversation\<close> an inherited value passes the guard too. \<^verbatim>\<open>Object.assign\<close> and the
  assignment of \<^verbatim>\<open>updatedAt\<close> then write to a function or to the prototype that every object
  of the program shares, and \<^verbatim>\<open>saveAll\<close> writes the document back as it was read. The outcome
  is that of \<^verbatim>\<open>saveAll\<close>; the surroundings after it, with a changed \<^verbatim>\<open>Object.prototype\<close> or
  \<^verbatim>\<open>Object\<close>, are not among those a \<open>LocalStorageEnv\<close> describes: the operation returns \<open>None\<close>
  for them, and \<open>Some\<close> of the surroundings in every other case.
\<close>

definition local_updateConversation ::
  "LocalStorageEnv \<Rightarrow> Date \<Rightarrow> string \<Rightarrow> Partial_Conversation
     \<Rightarrow> (storage_error + unit) \<times> LocalStorageEnv option" where
  "local_updateConversation env now conversationId updates =
     (let data = getAll env in
      case get_property (conversations data) conversationId of
        Missing \<Rightarrow> (Inl (ConversationNotFound conversationId), Some env)
      | Inherited name \<Rightarrow> (fst (saveAll env data), None)
      | Own conv \<Rightarrow>
          let conv1 = assign_Conversation conv updates;
              conv2 = conv1\<lparr>updatedAt := now\<rparr>
          in case saveAll env (data\<lparr>conversations :=
                    AList.update conversationId conv2 (conversations data)\<rparr>) of
               (r, env') \<Rightarrow> (r, Some env'))"

text \<open>In \<^verbatim>\<open>deleteConversation\<close> an inherited value passes the guard as well; \<^verbatim>\<open>delete\<close> of a
  key that is not the object's own removes nothing, and the document is written back.\<close>

definition local_deleteConversation ::
  "LocalStorageEnv \<Rightarrow> string \<Rightarrow> (storage_error + unit) \<times> LocalStorageEnv" where
  "local_deleteConversation env conversationId =
     (let data = getAll env in
      case get_property (conversations data) conversationId of
        Missing \<Rightarrow> (Inl (ConversationNotFound conversationId), env)
      | Inherited name \<Rightarrow>
          saveAll env (data\<lparr>conversations := AList.delete conversationId (conversations data)\<rparr>)
      | Own conv \<Rightarrow>
          saveAll env (data\<lparr>conversations := AList.delete conversationId (conversations data)\<rparr>))"

definition local_clearAll :: "LocalStorageEnv \<Rightarrow> (storage_error + unit) \<times> LocalStorageEnv" where
  "local_clearAll env =
     (if window_defined env then (Inr (), env\<lparr>stored := None\<rparr>) else (Inr (), env))"

section \<open>Remote adapter (lib/storage/supabase.ts)\<close>

subsection \<open>The backing store\<close>

text \<open>
  Modelled from the spec: the relational store, which the adapter reaches through a client
  typed \<^verbatim>\<open>any\<close> and which is not part of the repository. Its two tables hold rows of
  \<^verbatim>\<open>conversations\<close> (\<^verbatim>\<open>id\<close>, \<^verbatim>\<open>title\<close>, \<^verbatim>\<open>user_id\<close>, \<^verbatim>\<open>created_at\<close>, \<^verbatim>\<open>updated_at\<close>, \<^verbatim>\<open>metadata\<close>) and
  rows of \<^verbatim>\<open>messages\<close> (\<^verbatim>\<open>id\<close>, \<^verbatim>\<open>conversation_id\<close>, \<^verbatim>\<open>role\<close>, \<^verbatim>\<open>content\<close>, \<^verbatim>\<open>created_at\<close>,
  \<^verbatim>\<open>metadata\<close>). A table is the list of its rows in the order they were inserted. The
  store reports an error only where a key refuses an insertion: failures of the network
  and the access rules of the store are not modelled. An ordering requested from the
  store (\<^verbatim>\<open>.order\<close>) is \<^const>\<open>sort_key\<close> on the column.
\<close>

record conversation_row =
  cr_id :: string
  cr_title :: "string option"
  cr_user_id :: "string option"
  cr_created_at :: Date
  cr_updated_at :: Date
  cr_metadata :: conversation_metadata

record message_row =
  mr_id :: string
  mr_conversation_id :: string
  mr_role :: role
  mr_content :: string
  mr_created_at :: Date
  mr_metadata :: message_metadata

record Database =
  conversations_table :: "conversation_row list"
  messages_table :: "message_row list"

definition duplicate_key :: string where
  "duplicate_key = ''duplicate key value violates unique constraint''"

definition foreign_key_violation :: string where
  "foreign_key_violation = ''insert or update on table violates foreign key constraint''"

text \<open>Modelled from the spec: the relational store behind \<^verbatim>\<open>supabase.from('messages').insert\<close>.
  \<^verbatim>\<open>id\<close> is the key of a message row, and the one-to-many relation of a conversation to
  its messages is a foreign key: a row whose \<^verbatim>\<open>conversation_id\<close> names no conversation is
  refused. The result is the \<^verbatim>\<open>error.message\<close> or the store after the insertion.\<close>

definition insert_message :: "message_row \<Rightarrow> Database \<Rightarrow> string + Database" where
  "insert_message row db =
     (if mr_id row \<in> set (map mr_id (messages_table db)) then Inl duplicate_key
      else if mr_conversation_id row \<notin> set (map cr_id (conversations_table db))
        then Inl foreign_key_violation
      else Inr (db\<lparr>messages_table := messages_table db @ [row]\<rparr>))"

text \<open>Modelled from the spec: \<^verbatim>\<open>supabase.from('conversations').insert\<close>, with \<^verbatim>\<open>id\<close> the key of
  a conversation row.\<close>

definition insert_conversation :: "conversation_row \<Rightarrow> Database \<Rightarrow> string + Database" where
  "insert_conversation row db =
     (if cr_id row \<in> set (map cr_id (conversations_table db)) then Inl duplicate_key
      else Inr (db\<lparr>conversations_table := conversations_table db @ [row]\<rparr>))"

text \<open>Modelled from the spec: \<^verbatim>\<open>update(...).eq(...)\<close> changes every row the filter selects and
  reports no error when it selects none.\<close>

definition update_conversations ::
  "(conversation_row \<Rightarrow> bool) \<Rightarrow> (conversation_row \<Rightarrow> conversation_row) \<Rightarrow> Database \<Rightarrow> Database" where
  "update_conversations sel f db =
     db\<lparr>conversations_table := map (\<lambda>r. if sel r then f r else r) (conversations_table db)\<rparr>"

definition update_messages ::
  "(message_row \<Rightarrow> bool) \<Rightarrow> (message_row \<Rightarrow> message_row) \<Rightarrow> Database \<Rightarrow> Database" where
  "update_messages sel f db =
     db\<lparr>messages_table := map (\<lambda>r. if sel r then f r else r) (messages_table db)\<rparr>"

text \<open>Modelled from the spec: \<^verbatim>\<open>delete().eq(...)\<close> removes the selected rows and reports no
  error when there are none; deleting a conversation cascades to its messages.\<close>

definition delete_messages :: "(message_row \<Rightarrow> bool) \<Rightarrow> Database \<Rightarrow> Database" where
  "delete_messages sel db =
     db\<lparr>messages_table := filter (\<lambda>r. \<not> sel r) (messages_table db)\<rparr>"

definition delete_conversations :: "(conversation_row \<Rightarrow> bool) \<Rightarrow> Database \<Rightarrow> Database" where
  "delete_conversations sel db =
     \<lparr>conversations_table = filter (\<lambda>r. \<not> sel r) (conversations_table db),
      messages_table =
        filter (\<lambda>m. mr_conversation_id m \<notin> set (map cr_id (filter sel (conversations_table db))))
          (messages_table db)\<rparr>"

text \<open>Modelled from the spec: the \<^verbatim>\<open>messages(*)\<close> part of \<^verbatim>\<open>select('*, messages(*)')\<close>, the message
  rows of one conversation row.\<close>

definition embedded_messages :: "Database \<Rightarrow> conversation_row \<Rightarrow> message_row list" where
  "embedded_messages db row =
     filter (\<lambda>m. mr_conversation_id m = cr_id row) (messages_table db)"

subsection \<open>SupabaseChatAdapter\<close>

definition empty_message_metadata :: message_metadata where
  "empty_message_metadata = \<lparr>tokens = None, model = None, toolCalls = None, error_text = None\<rparr>"

definition mapToMessage :: "message_row \<Rightarrow> Message" where
  "mapToMessage row =
     \<lparr>msg_id = mr_id row,
      role = mr_role row,
      content = mr_content row,
      timestamp = mr_created_at row,
      msg_metadata = Some (mr_metadata row)\<rparr>"

text \<open>
  \<^verbatim>\<open>mapToConversation\<close> reads \<^verbatim>\<open>this.mapToMessage\<close>, so what it does depends on the \<^verbatim>\<open>this\<close> it is
  called with: the adapter when it is called as \<^verbatim>\<open>this.mapToConversation(data)\<close>, and
  \<^verbatim>\<open>undefined\<close> when the method is handed to \<^verbatim>\<open>Array.prototype.map\<close> as a bare callback (class
  bodies are strict code). In the second case the property read throws before a
  conversation is built. \<^verbatim>\<open>mapToMessage\<close> does not mention \<^verbatim>\<open>this\<close>. The row carries its embedded
  message rows.
\<close>

datatype this_value = The_adapter | Undefined

definition mapToConversation ::
  "this_value \<Rightarrow> conversation_row \<Rightarrow> message_row list \<Rightarrow> storage_error + Conversation" where
  "mapToConversation this row row_messages =
     (case this of
        Undefined \<Rightarrow> Inl (TypeError ''mapToMessage'')
      | The_adapter \<Rightarrow>
          Inr \<lparr>conv_id = cr_id row,
               title = cr_title row,
               messages = sort_key timestamp (map mapToMessage row_messages),
               createdAt = cr_created_at row,
               updatedAt = cr_updated_at row,
               conv_metadata = Some (cr_metadata row)\<rparr>)"

text \<open>\<^verbatim>\<open>xs.map(callback)\<close> with a callback that may throw: the first exception ends the
  traversal.\<close>

fun map_callback :: "('a \<Rightarrow> storage_error + 'b) \<Rightarrow> 'a list \<Rightarrow> storage_error + 'b list" where
  "map_callback f [] = Inr []"
| "map_callback f (x # xs) =
     (case f x of
        Inl e \<Rightarrow> Inl e
      | Inr y \<Rightarrow> (case map_callback f xs of Inl e \<Rightarrow> Inl e | Inr ys \<Rightarrow> Inr (y # ys)))"

text \<open>Every operation takes the adapter's \<^verbatim>\<open>userId\<close> field and the store, and returns its
  outcome with the store after it.\<close>

definition supabase_saveMessage ::
  "string option \<Rightarrow> Database \<Rightarrow> Date \<Rightarrow> string \<Rightarrow> Message \<Rightarrow> (storage_error + unit) \<times> Database" where
  "supabase_saveMessage user db now conversationId message =
     (case insert_message
             \<lparr>mr_id = msg_id message,
              mr_conversation_id = conversationId,
              mr_role = role message,
              mr_content = content message,
              mr_created_at = timestamp message,
              mr_metadata = (case msg_metadata message of
                               None \<Rightarrow> empty_message_metadata | Some md \<Rightarrow> md)\<rparr> db of
        Inl msg \<Rightarrow> (Inl (Failed ''save message'' msg), db)
      | Inr db1 \<Rightarrow>
          (Inr (), update_conversations (\<lambda>r. cr_id r = conversationId)
                     (\<lambda>r. r\<lparr>cr_updated_at := now\<rparr>) db1))"

definition supabase_getMessages :: "string option \<Rightarrow> Database \<Rightarrow> string \<Rightarrow> Message list" where
  "supabase_getMessages user db conversationId =
     map mapToMessage
       (sort_key mr_created_at
          (filter (\<lambda>r. mr_conversation_id r = conversationId) (messages_table db)))"

definition supabase_deleteMessage ::
  "string option \<Rightarrow> Database \<Rightarrow> string \<Rightarrow> (storage_error + unit) \<times> Database" where
  "supabase_deleteMessage user db messageId =
     (Inr (), delete_messages (\<lambda>r. mr_id r = messageId) db)"

definition supabase_updateMessage ::
  "string option \<Rightarrow> Database \<Rightarrow> string \<Rightarrow> Partial_Message \<Rightarrow> (storage_error + unit) \<times> Database" where
  "supabase_updateMessage user db messageId updates =
     (Inr (), update_messages (\<lambda>r. mr_id r = messageId)
                (\<lambda>r. r\<lparr>mr_content := (case pm_content updates of
                                          None \<Rightarrow> mr_content r | Some v \<Rightarrow> v),
                         mr_metadata := (case pm_metadata updates of
                                           None \<Rightarrow> mr_metadata r | Some v \<Rightarrow> v)\<rparr>) db)"

text \<open>\<^verbatim>\<open>(data || []).map(this.mapToConversation)\<close>: the method is passed as a bare callback.\<close>

definition supabase_listConversations ::
  "string option \<Rightarrow> Database \<Rightarrow> storage_error + Conversation list" where
  "supabase_listConversations user db =
     map_callback (\<lambda>row. mapToConversation Undefined row (embedded_messages db row))
       (sort_key (\<lambda>r. - cr_updated_at r)
          (if truthy user then filter (\<lambda>r. cr_user_id r = user) (conversations_table db)
           else conversations_table db))"

text \<open>\<^verbatim>\<open>.single()\<close> reports \<^verbatim>\<open>PGRST116\<close> unless exactly one row is selected, and the adapter
  answers that code with \<^verbatim>\<open>null\<close>. Otherwise it returns \<^verbatim>\<open>this.mapToConversation(data)\<close>.\<close>

definition supabase_getConversation ::
  "string option \<Rightarrow> Database \<Rightarrow> string \<Rightarrow> storage_error + Conversation option" where
  "supabase_getConversation user db conversationId =
     (case filter (\<lambda>r. cr_id r = conversationId) (conversations_table db) of
        [row] \<Rightarrow>
          (case mapToConversation The_adapter row (embedded_messages db row) of
             Inl e \<Rightarrow> Inl e
           | Inr conversation \<Rightarrow> Inr (Some conversation))
      | _ \<Rightarrow> Inr None)"

text \<open>\<open>uuid\<close> is the value of \<^verbatim>\<open>uuidv4()\<close> and \<open>now\<close> that of the one \<^verbatim>\<open>new Date()\<close>.\<close>

definition supabase_createConversation ::
  "string option \<Rightarrow> Database \<Rightarrow> string \<Rightarrow> Date \<Rightarrow> string option
     \<Rightarrow> (storage_error + Conversation) \<times> Database" where
  "supabase_createConversation user db uuid now title_arg =
     (let data = \<lparr>cr_id = uuid,
                  cr_title = Some (title_or_default title_arg),
                  cr_user_id = user,
                  cr_created_at = now,
                  cr_updated_at = now,
                  cr_metadata = \<lparr>totalTokens = Some 0, messageCount = Some 0, userId = None\<rparr>\<rparr>
      in case insert_conversation data db of
           Inl msg \<Rightarrow> (Inl (Failed ''create conversation'' msg), db)
         | Inr db1 \<Rightarrow>
             (Inr \<lparr>conv_id = cr_id data,
                   title = cr_title data,
                   messages = [],
                   createdAt = cr_created_at data,
                   updatedAt = cr_updated_at data,
                   conv_metadata = Some (cr_metadata data)\<rparr>, db1))"

definition supabase_updateConversation ::
  "string option \<Rightarrow> Database \<Rightarrow> Date \<Rightarrow> string \<Rightarrow> Partial_Conversation
     \<Rightarrow> (storage_error + unit) \<times> Database" where
  "supabase_updateConversation user db now conversationId updates =
     (Inr (), update_conversations (\<lambda>r. cr_id r = conversationId)
                (\<lambda>r. r\<lparr>cr_updated_at := now,
                         cr_title := (case pc_title updates of
                                        None \<Rightarrow> cr_title r | Some v \<Rightarrow> Some v),
                         cr_metadata := (case pc_metadata updates of
                                           None \<Rightarrow> cr_metadata r | Some v \<Rightarrow> v)\<rparr>) db)"

definition supabase_deleteConversation ::
  "string option \<Rightarrow> Database \<Rightarrow> string \<Rightarrow> (storage_error + unit) \<times> Database" where
  "supabase_deleteConversation user db conversationId =
     (Inr (), delete_conversations (\<lambda>r. cr_id r = conversationId) db)"

definition supabase_clearAll :: "string option \<Rightarrow> Database \<Rightarrow> (storage_error + unit) \<times> Database" where
  "supabase_clearAll user db =
     (if \<not> truthy user then (Inl NoUserId, db)
      else (Inr (), delete_conversations (\<lambda>r. cr_user_id r = user) db))"

section \<open>Notions the properties are stated with\<close>

subsection \<open>Retry and circuit breaker\<close>

text \<open>The number of invocations of the wrapped operation among the events of a run.\<close>

definition calls :: "'n event list \<Rightarrow> nat" where
  "calls evs = length (filter (\<lambda>e. e = Call) evs)"

text \<open>The events of \<open>n\<close> attempts that start at attempt index \<open>a\<close>: a wait after each but the
  last.\<close>

fun backoff_schedule :: "'n arithmetic \<Rightarrow> 'n RetryOptions \<Rightarrow> int \<Rightarrow> nat \<Rightarrow> 'n event list" where
  "backoff_schedule js opts a 0 = []"
| "backoff_schedule js opts a (Suc 0) = [Call]"
| "backoff_schedule js opts a (Suc (Suc n)) =
     Call # Sleep (delay js opts a) # backoff_schedule js opts (a + 1) (Suc n)"

text \<open>How the \<open>k\<close>-th invocation (from 0) of an operation settles when it is invoked again and
  again from the surroundings \<open>s\<close>.\<close>

definition settlement :: "('s, 'a) operation \<Rightarrow> 's \<Rightarrow> nat \<Rightarrow> thrown + 'a" where
  "settlement fn s k = fst (fn (((\<lambda>w. snd (fn w)) ^^ k) s))"

text \<open>Operations whose surroundings are the count of invocations so far.\<close>

definition throws_string :: "(nat, string) operation" where
  "throws_string n = (Inl (Thrown_value ''boom''), Suc n)"

definition always_unavailable :: "(nat, string) operation" where
  "always_unavailable n = (Inl (Error ''503 Service Unavailable''), Suc n)"

definition fails_twice :: "(nat, string) operation" where
  "fails_twice n = (if n < 2 then Inl (Error ''fetch failed'') else Inr ''done'', Suc n)"

definition retry_every :: "thrown \<Rightarrow> bool" where
  "retry_every e = True"

definition example_options :: "int \<Rightarrow> (thrown \<Rightarrow> bool) \<Rightarrow> js_number RetryOptions" where
  "example_options n p =
     \<lparr>maxRetries = n, baseDelay = Num 1000, maxDelay = Num 3000, backoffMultiplier = Num 2,
      shouldRetry = p\<rparr>"

text \<open>Options with a fractional multiplier: \<^verbatim>\<open>{ maxRetries: 4, baseDelay: 100, maxDelay: 1000,
  backoffMultiplier: 1.5 }\<close>.\<close>

definition fractional_options :: "js_number RetryOptions" where
  "fractional_options =
     \<lparr>maxRetries = 4, baseDelay = Num 100, maxDelay = Num 1000, backoffMultiplier = Num (3 / 2),
      shouldRetry = retry_every\<rparr>"

text \<open>Options whose second wait needs more than 53 bits: \<^verbatim>\<open>{ maxRetries: 3,
  baseDelay: 129140163, maxDelay: 1e20, backoffMultiplier: 129140163 }\<close>, where
  \<open>129140163 = 3 ^ 17\<close>.\<close>

definition large_options :: "js_number RetryOptions" where
  "large_options =
     \<lparr>maxRetries = 3, baseDelay = Num 129140163, maxDelay = Num 100000000000000000000,
      backoffMultiplier = Num 129140163, shouldRetry = retry_every\<rparr>"

text \<open>What holds of a breaker between two calls: its parameters are those it was built
  with, it is closed or open, and an open breaker has counted at least \<open>threshold\<close>
  failures.\<close>

definition breaker_ok :: "int \<Rightarrow> int \<Rightarrow> CircuitBreaker \<Rightarrow> bool" where
  "breaker_ok th t cb =
     (threshold cb = th \<and> timeout cb = t \<and>
      (case state cb of Closed \<Rightarrow> True | Open \<Rightarrow> th \<le> failures cb | HalfOpen \<Rightarrow> False))"

text \<open>Surroundings with a clock and a count of the invocations of the guarded operation,
  which takes 10 ms to settle.\<close>

record test_world =
  clock :: int
  invocations :: nat

definition fresh_world :: test_world where
  "fresh_world = \<lparr>clock = 0, invocations = 0\<rparr>"

definition failing_op :: "(test_world, string) guarded_operation" where
  "failing_op seen w =
     (Inl (Error ''503 Service Unavailable''),
      w\<lparr>clock := clock w + 10, invocations := Suc (invocations w)\<rparr>)"

definition succeeding_op :: "(test_world, string) guarded_operation" where
  "succeeding_op seen w =
     (Inr ''ok'', w\<lparr>clock := clock w + 10, invocations := Suc (invocations w)\<rparr>)"

text \<open>An operation that fulfils with the state \<^verbatim>\<open>getState()\<close> shows it.\<close>

definition reporting_op :: "(test_world, breaker_state) guarded_operation" where
  "reporting_op seen w =
     (Inr (fst seen), w\<lparr>clock := clock w + 10, invocations := Suc (invocations w)\<rparr>)"

definition later :: "int \<Rightarrow> test_world \<Rightarrow> test_world" where
  "later ms w = w\<lparr>clock := clock w + ms\<rparr>"

text \<open>
  Overlapping calls on a breaker with threshold 5 and a cooldown of 60000 ms. Five calls
  fail one after the other, the last at time 50. After the cooldown a call arrives at
  60051 and, while its operation is pending, a second call arrives at 60052. The operation
  of the second call fulfils, then that of the first call rejects at 60070.
\<close>

definition five_failed_calls :: "breaker_event list" where
  "five_failed_calls =
     [Arrives 0, Rejects 10, Arrives 10, Rejects 20, Arrives 20, Rejects 30,
      Arrives 30, Rejects 40, Arrives 40, Rejects 50]"

definition overlapping_probe :: "breaker_event list" where
  "overlapping_probe = five_failed_calls @ [Arrives 60051, Arrives 60052, Fulfils, Rejects 60070]"

text \<open>
  A slow call on the same breaker: it arrives at time 0 while the breaker is closed, the
  five calls that follow fail while its operation is pending, and then it fulfils.
\<close>

definition slow_call :: "breaker_event list" where
  "slow_call = Arrives 0 # five_failed_calls @ [Fulfils]"

subsection \<open>Storage\<close>

text \<open>The sum of \<^verbatim>\<open>metadata.tokens\<close> over a sequence of messages, an absent count being 0.\<close>

definition sum_tokens :: "Message list \<Rightarrow> int" where
  "sum_tokens ms =
     sum_list (map (\<lambda>m. or_zero (case msg_metadata m of None \<Rightarrow> None | Some md \<Rightarrow> tokens md)) ms)"

text \<open>The cached counts of a conversation, where present, agree with its messages.\<close>

definition counts_agree :: "Conversation \<Rightarrow> bool" where
  "counts_agree c =
     (case conv_metadata c of
        None \<Rightarrow> True
      | Some md \<Rightarrow>
          (case totalTokens md of None \<Rightarrow> True | Some t \<Rightarrow> t = sum_tokens (messages c)) \<and>
          (case messageCount md of None \<Rightarrow> True | Some n \<Rightarrow> n = int (length (messages c))))"

text \<open>The conversation a read of the local dictionary gave, when it gave one.\<close>

definition conversation_of :: "property \<Rightarrow> Conversation option" where
  "conversation_of p = (case p of Own conv \<Rightarrow> Some conv | Inherited name \<Rightarrow> None | Missing \<Rightarrow> None)"

text \<open>All messages the local adapter can see, conversation after conversation in the order
  \<^verbatim>\<open>Object.values\<close> lists them.\<close>

definition all_messages :: "LocalStorageEnv \<Rightarrow> Message list" where
  "all_messages env = concat (map (\<lambda>kc. messages (snd kc)) (conversations (getAll env)))"

text \<open>The tables respect their keys: ids are unique and every message row belongs to a
  conversation row.\<close>

definition keys_respected :: "Database \<Rightarrow> bool" where
  "keys_respected db =
     (distinct (map cr_id (conversations_table db)) \<and>
      distinct (map mr_id (messages_table db)) \<and>
      list_all (\<lambda>m. mr_conversation_id m \<in> set (map cr_id (conversations_table db)))
        (messages_table db))"

text \<open>A browser with nothing stored, and a server-side rendering context.\<close>

definition empty_browser :: LocalStorageEnv where
  "empty_browser = \<lparr>window_defined = True, stored = None, quota_exceeded = False\<rparr>"

definition server_side :: LocalStorageEnv where
  "server_side = \<lparr>window_defined = False, stored = None, quota_exceeded = False\<rparr>"

definition kyoto_question :: Message where
  "kyoto_question =
     \<lparr>msg_id = ''m1'', role = User, content = ''Plan a 3-day trip to Kyoto'',
      timestamp = 1000, msg_metadata = None\<rparr>"

definition kyoto_answer :: Message where
  "kyoto_answer =
     \<lparr>msg_id = ''m2'', role = Assistant, content = ''Day 1: Fushimi Inari'',
      timestamp = 2000,
      msg_metadata = Some \<lparr>tokens = Some 42, model = Some ''gpt-4o-mini'',
                          toolCalls = None, error_text = None\<rparr>\<rparr>"

text \<open>The local store after creating "Trip Planning" (the id generator returning \<open>c1\<close>) and
  saving the two messages.\<close>

definition trip_created :: LocalStorageEnv where
  "trip_created = snd (local_createConversation empty_browser ''c1'' 100 100 (Some ''Trip Planning''))"

definition trip_asked :: LocalStorageEnv where
  "trip_asked = snd (local_saveMessage trip_created 1001 ''c1'' kyoto_question)"

definition trip_saved :: LocalStorageEnv where
  "trip_saved = snd (local_saveMessage trip_asked 2001 ''c1'' kyoto_answer)"

text \<open>The same steps against the remote store, starting from empty tables.\<close>

definition empty_tables :: Database where
  "empty_tables = \<lparr>conversations_table = [], messages_table = []\<rparr>"

definition remote_trip_created :: Database where
  "remote_trip_created =
     snd (supabase_createConversation None empty_tables ''c1'' 100 (Some ''Trip Planning''))"

definition remote_trip_asked :: Database where
  "remote_trip_asked =
     snd (supabase_saveMessage None remote_trip_created 1001 ''c1'' kyoto_question)"

definition remote_trip_saved :: Database where
  "remote_trip_saved = snd (supabase_saveMessage None remote_trip_asked 2001 ''c1'' kyoto_answer)"


text \<open>Remote tables shared by two users, each with one conversation holding one message.\<close>

definition shared_tables :: Database where
  "shared_tables =
     snd (supabase_saveMessage (Some ''bob'')
       (snd (supabase_saveMessage (Some ''alice'')
         (snd (supabase_createConversation (Some ''bob'')
           (snd (supabase_createConversation (Some ''alice'') empty_tables ''a1'' 100 None))
           ''b1'' 200 None))
         1001 ''a1'' kyoto_question))
       2001 ''b1'' kyoto_answer)"


text \<open>A partial update that supplies only a metadata bag, holding only an error text.\<close>

definition error_only :: Partial_Message where
  "error_only =
     \<lparr>pm_id = None, pm_role = None, pm_content = None, pm_timestamp = None,
      pm_metadata = Some \<lparr>tokens = None, model = None, toolCalls = None,
                          error_text = Some ''truncated''\<rparr>\<rparr>"

text \<open>A partial update of a conversation that supplies nothing.\<close>

definition no_updates :: Partial_Conversation where
  "no_updates =
     \<lparr>pc_id = None, pc_title = None, pc_messages = None, pc_createdAt = None,
      pc_updatedAt = None, pc_metadata = None\<rparr>"

text \<open>The local store after conversation \<open>b\<close> and then conversation \<open>a\<close> were created and
  \<open>b\<close> was updated at time 500.\<close>

definition two_conversations :: LocalStorageEnv where
  "two_conversations =
     (case snd (local_updateConversation
             (snd (local_createConversation
               (snd (local_createConversation empty_browser ''b'' 100 100 None))
               ''a'' 200 200 None))
             500 ''b'' no_updates) of
        Some env \<Rightarrow> env
      | None \<Rightarrow> empty_browser)"

text \<open>What a message looks like when read back from the remote store: an absent metadata
  bag was stored as the empty one.\<close>

definition as_stored :: "Message \<Rightarrow> Message" where
  "as_stored m =
     m\<lparr>msg_metadata := Some (case msg_metadata m of
                              None \<Rightarrow> empty_message_metadata | Some md \<Rightarrow> md)\<rparr>"

text \<open>A message with its content and metadata bag overwritten by the ones a partial update
  supplies; the bag is taken as a whole.\<close>

definition overwrite_supplied :: "Message \<Rightarrow> Partial_Message \<Rightarrow> Message" where
  "overwrite_supplied m u =
     m\<lparr>content := (case pm_content u of None \<Rightarrow> content m | Some v \<Rightarrow> v),
       msg_metadata := (case pm_metadata u of None \<Rightarrow> msg_metadata m | Some v \<Rightarrow> Some v)\<rparr>"

section \<open>Properties of the reliability primitives\<close>

subsection \<open>The retry loop, one iteration at a time\<close>

lemma settlement_0: "settlement fn s 0 = fst (fn s)"
  by (simp add: settlement_def)

lemma settlement_Suc: "settlement fn s (Suc k) = settlement fn (snd (fn s)) k"
  by (simp add: settlement_def funpow_Suc_right del: funpow.simps)

lemma loop_exhausted:
  "withRetry_loop js opts fn (maxRetries opts) le s = (Inl (LLMError (maxRetries opts) le), [], s)"
  by (subst withRetry_loop.simps) simp

lemma loop_retry_step:
  assumes "attempt < maxRetries opts" "fn s = (Inl x, s')" "shouldRetry opts x"
  shows "withRetry_loop js opts fn attempt le s =
    (case withRetry_loop js opts fn (attempt + 1)
            (Some (if instanceof_Error x then x else Error ''Unknown error'')) s' of
       (r, evs, s'') \<Rightarrow>
         (r, (if attempt < maxRetries opts - 1 then Call # Sleep (delay js opts attempt) # evs
              else Call # evs), s''))"
  using assms by (subst withRetry_loop.simps) (simp add: Let_def split: prod.splits)

lemma loop_success:
  assumes "attempt < maxRetries opts" "fn s = (Inr v, s')"
  shows "withRetry_loop js opts fn attempt le s = (Inr v, [Call], s')"
  using assms by (subst withRetry_loop.simps) simp

lemma loop_reject:
  assumes "attempt < maxRetries opts" "fn s = (Inl x, s')" "\<not> shouldRetry opts x"
  shows "withRetry_loop js opts fn attempt le s = (Inl x, [Call], s')"
  using assms by (subst withRetry_loop.simps) (simp add: Let_def)

lemma calls_simps [simp]:
  "calls [] = 0" "calls (Call # evs) = Suc (calls evs)" "calls (Sleep d # evs) = calls evs"
  by (simp_all add: calls_def)

lemma loop_all_fail:
  assumes "n = nat (maxRetries opts - attempt)" "0 < n"
    and "\<forall>k<n. \<exists>x. settlement fn s k = Inl x \<and> shouldRetry opts x"
    and "settlement fn s (n - 1) = Inl e_last"
  shows "case withRetry_loop js opts fn attempt le s of (r, evs, s') \<Rightarrow>
           r = Inl (LLMError (maxRetries opts)
                 (Some (if instanceof_Error e_last then e_last else Error ''Unknown error'')))
           \<and> calls evs = n"
  using assms
proof (induction n arbitrary: attempt le s)
  case 0
  then show ?case by simp
next
  case (Suc n)
  from Suc.prems(3) obtain x where x: "settlement fn s 0 = Inl x" "shouldRetry opts x"
    by blast
  obtain s' where fs: "fn s = (Inl x, s')"
    using x(1) by (cases "fn s") (simp add: settlement_0)
  have lt: "attempt < maxRetries opts" using Suc.prems(1) by linarith
  have step: "withRetry_loop js opts fn attempt le s =
    (case withRetry_loop js opts fn (attempt + 1)
            (Some (if instanceof_Error x then x else Error ''Unknown error'')) s' of
       (r, evs, s'') \<Rightarrow>
         (r, (if attempt < maxRetries opts - 1 then Call # Sleep (delay js opts attempt) # evs
              else Call # evs), s''))"
    using lt fs x(2) by (rule loop_retry_step)
  show ?case
  proof (cases n)
    case 0
    then have last: "attempt + 1 = maxRetries opts" using Suc.prems(1) by linarith
    have "e_last = x" using Suc.prems(4) 0 x(1) by simp
    then show ?thesis using step last 0 by (simp add: loop_exhausted)
  next
    case (Suc m)
    have n: "n = nat (maxRetries opts - (attempt + 1))" using Suc.prems(1) by linarith
    have shift: "settlement fn s' k = settlement fn s (Suc k)" for k
      using fs by (simp add: settlement_Suc)
    have all: "\<forall>k<n. \<exists>x. settlement fn s' k = Inl x \<and> shouldRetry opts x"
      using Suc.prems(3) by (simp add: shift)
    have lastn: "settlement fn s' (n - 1) = Inl e_last"
      using Suc.prems(4) Suc by (simp add: shift)
    have pos: "0 < n" using Suc by simp
    note ih = Suc.IH[OF n pos all lastn,
        of "Some (if instanceof_Error x then x else Error ''Unknown error'')"]
    show ?thesis using step ih by (auto split: prod.splits)
  qed
qed


lemma loop_nonempty:
  "attempt < maxRetries opts \<Longrightarrow> 0 < calls (fst (snd (withRetry_loop js opts fn attempt le s)))"
  by (subst withRetry_loop.simps) (auto simp: Let_def split: prod.splits sum.splits)

lemma loop_schedule:
  "fst (snd (withRetry_loop js opts fn attempt le s)) =
     backoff_schedule js opts attempt (calls (fst (snd (withRetry_loop js opts fn attempt le s))))"
proof (induction js opts fn attempt le s rule: withRetry_loop.induct)
  case (1 js opts fn attempt lastError s)
  show ?case
  proof (cases "attempt < maxRetries opts")
    case False
    then show ?thesis by (subst (1 2) withRetry_loop.simps) simp
  next
    case True
    obtain r s' where Pair: "fn s = (r, s')" by (cases "fn s") auto
    show ?thesis
    proof (cases r)
      case (Inr v)
      then show ?thesis using loop_success[OF True, where fn = fn and s = s and v = v and s' = s'] Pair by simp
    next
      case (Inl x)
      show ?thesis
      proof (cases "shouldRetry opts x")
        case False
        have "withRetry_loop js opts fn attempt lastError s = (Inl x, [Call], s')"
          using True Pair Inl False by (intro loop_reject) auto
        then show ?thesis by simp
      next
        case sr: True
        let ?le = "Some (if instanceof_Error x then x else Error ''Unknown error'')"
        obtain r2 evs s2 where rec: "withRetry_loop js opts fn (attempt + 1) ?le s' = (r2, evs, s2)"
          by (cases "withRetry_loop js opts fn (attempt + 1) ?le s'") auto
        have step: "withRetry_loop js opts fn attempt lastError s =
            (r2, (if attempt < maxRetries opts - 1 then Call # Sleep (delay js opts attempt) # evs
                  else Call # evs), s2)"
          using True Pair Inl sr rec by (subst loop_retry_step[where x = x and s' = s']) auto
        have ih: "evs = backoff_schedule js opts (attempt + 1) (calls evs)"
          using "1.IH"(1)[OF True Pair[symmetric] Inl refl] "1.IH"(2)[OF True Pair[symmetric] Inl refl] rec sr
          by (cases "attempt < maxRetries opts - 1") (simp_all add: Let_def)
        show ?thesis
        proof (cases "attempt < maxRetries opts - 1")
          case lt: True
          then have "0 < calls evs" using loop_nonempty[where attempt = "attempt + 1" and opts = opts and js = js and fn = fn and le = ?le and s = s'] rec
            by simp
          then obtain k where k: "calls evs = Suc k" by (cases "calls evs") auto
          show ?thesis using step lt ih k by simp
        next
          case ge: False
          then have "attempt + 1 = maxRetries opts" using True by linarith
          then have "evs = []" using rec loop_exhausted[where opts = opts and js = js and fn = fn and le = ?le and s = s'] by simp
          then show ?thesis using step ge by simp
        qed
      qed
    qed
  qed
qed

lemma backoff_schedule_closed:
  "0 \<le> a \<Longrightarrow> backoff_schedule js opts a n =
     (if n = 0 then []
      else concat (map (\<lambda>i. [Call, Sleep (delay js opts (a + int i))]) [0..<n - 1]) @ [Call])"
proof (induction js opts a n rule: backoff_schedule.induct)
  case (1 js opts a)
  then show ?case by simp
next
  case (2 js opts a)
  then show ?case by simp
next
  case (3 js opts a n)
  have up: "[0..<Suc n] = 0 # map Suc [0..<n]"
    by (simp add: upt_conv_Cons map_Suc_upt del: upt_Suc)
  show ?case
    using "3.IH" "3.prems"
    by (simp add: up comp_def ac_simps del: upt_Suc)
qed


subsection \<open>Double arithmetic on integers of at most 53 bits\<close>

lemma bit_length_le: "a < 2 ^ k \<Longrightarrow> bit_length a \<le> k"
proof (induction k arbitrary: a)
  case 0
  then show ?case by (subst bit_length.simps) simp
next
  case (Suc k)
  show ?case
  proof (cases "a \<le> 0")
    case True
    then show ?thesis by (subst bit_length.simps) simp
  next
    case False
    have "a div 2 < 2 ^ k" using Suc.prems by simp
    then have "bit_length (a div 2) \<le> k" by (rule Suc.IH)
    then show ?thesis using False by (subst bit_length.simps) simp
  qed
qed

lemma round_half_even_of_int [simp]: "round_half_even (of_int z) = z"
  by (simp add: round_half_even_def)

lemma to_double_of_int:
  assumes "\<bar>k\<bar> < 2 ^ 53"
  shows "to_double (of_int k) = Num (of_int k)"
proof (cases "k = 0")
  case True
  then show ?thesis by (simp add: to_double_def)
next
  case False
  define e where "e = max (floor_log2 \<bar>of_int k\<bar> - 52) (- 1074)"
  define n where "n = nat (- e)"
  have ge1: "(1 :: rat) \<le> \<bar>of_int k\<bar>" using False by (simp flip: of_int_abs)
  have "floor_log2 \<bar>of_int k\<bar> = int (bit_length \<bar>k\<bar>) - 1"
    using ge1 by (simp add: floor_log2_def flip: of_int_abs)
  moreover have "bit_length \<bar>k\<bar> \<le> 53" using assms by (rule bit_length_le)
  ultimately have e0: "e \<le> 0" by (simp add: e_def)
  have ulp: "pow2 e = 1 / of_int (2 ^ n)"
    using e0 by (cases "e = 0") (simp_all add: pow2_def n_def)
  have quot: "(of_int k :: rat) / pow2 e = of_int (k * 2 ^ n)" by (simp add: ulp)
  have prod: "(of_int (k * 2 ^ n) :: rat) * pow2 e = of_int k" by (simp add: ulp)
  have "\<bar>k\<bar> < 2 ^ 1024" using assms by (rule less_trans) simp
  then have small: "\<not> (of_int (2 ^ 1024) :: rat) \<le> \<bar>of_int k\<bar>"
    by (simp only: not_le of_int_less_iff flip: of_int_abs)
  have nz: "(of_int k :: rat) \<noteq> 0" using False by simp
  show ?thesis
    unfolding to_double_def Let_def e_def[symmetric] quot round_half_even_of_int prod
    using nz small by simp
qed

lemma delay_exact:
  assumes "\<bar>m ^ i\<bar> < 2 ^ 53" "\<bar>b * m ^ i\<bar> < 2 ^ 53"
  shows "min64 (times64 (Num (of_int b)) (pow64 (Num (of_int m)) i)) (Num d) =
         Num (min (of_int b * of_int m ^ i) d)"
proof -
  have p: "pow64 (Num (of_int m)) i = Num (of_int (m ^ i))"
  proof (cases i)
    case 0
    then show ?thesis by simp
  next
    case (Suc j)
    have "pow64 (Num (of_int m)) (Suc j) = to_double (of_int (m ^ Suc j))"
      by (simp only: pow64.simps of_int_power)
    then show ?thesis using assms(1) Suc by (simp only: to_double_of_int)
  qed
  have "times64 (Num (of_int b)) (Num (of_int (m ^ i))) = to_double (of_int (b * m ^ i))"
    by (simp only: times64.simps of_int_mult)
  then have t: "times64 (Num (of_int b)) (Num (of_int (m ^ i))) = Num (of_int (b * m ^ i))"
    using assms(2) by (simp only: to_double_of_int)
  show ?thesis by (simp only: p t min64.simps) (simp only: of_int_mult of_int_power)
qed

subsection \<open>Circuit breaker\<close>

lemma ok_new: "breaker_ok th t (new_CircuitBreaker th t)"
  by (simp add: breaker_ok_def new_CircuitBreaker_def)

lemma ok_reset: "breaker_ok th t cb \<Longrightarrow> breaker_ok th t (reset cb)"
  by (simp add: breaker_ok_def reset_def)

lemma ok_execute:
  assumes "breaker_ok th t cb" "execute now fn cb s = (r, cb', s')"
  shows "breaker_ok th t cb'"
  using assms
  by (auto simp: breaker_ok_def execute_def gate_def settle_def onSuccess_def onFailure_def Let_def
           split: if_splits prod.splits sum.splits breaker_state.splits)

lemma ok_calls:
  "breaker_ok th t cb \<Longrightarrow> breaker_calls now cs cb s = (cb', s') \<Longrightarrow> breaker_ok th t cb'"
proof (induction now cs cb s rule: breaker_calls.induct)
  case (1 now cb s)
  then show ?case by simp
next
  case (2 now fn cs cb s)
  obtain r cb1 s1 where e: "execute now fn cb s = (r, cb1, s1)"
    by (cases "execute now fn cb s") auto
  have "breaker_ok th t cb1" using ok_execute[OF "2.prems"(1) e] .
  then show ?case using 2 e by simp
next
  case (3 now cs cb s)
  then show ?case by (simp add: ok_reset)
next
  case (4 now change cs cb s)
  then show ?case by simp
qed

text \<open>An awaited call of \<^verbatim>\<open>execute\<close> is the arrival of the call followed by the settlement of
  its operation, with no other event between the two.\<close>

lemma execute_as_events:
  assumes "execute now fn cb s = (r, cb', s')" "gate (now s) cb = Inr cb1"
  shows "breaker_steps [Arrives (now s), (case r of Inr v \<Rightarrow> Fulfils | Inl e \<Rightarrow> Rejects (now s'))]
           (cb, 0) = Some (cb', 0)"
  using assms by (auto simp: execute_def settle_def split: prod.splits sum.splits)

text \<open>
  Claim C4, as stated, fails for calls that overlap. On a breaker with threshold 5 and a
  cooldown of 60000 ms that five failures have opened, a probe is let through at 60051
  (half-open) and a second call at 60052, while the probe is pending. The second call
  succeeds and closes the breaker; the probe then fails, and the breaker is closed with a
  failure count of 1, not open. And a call let through while the breaker was closed, whose
  operation fulfils after five later calls have failed, takes the breaker from open to
  closed, with no cooldown and no probe.
\<close>

theorem circuit_breaker_overlap_counterexample:
  "breaker_steps five_failed_calls (new_CircuitBreaker 5 60000, 0) =
     Some (\<lparr>failures = 5, lastFailureTime = 50, state = Open, threshold = 5, timeout = 60000\<rparr>, 0) \<and>
   breaker_steps (five_failed_calls @ [Arrives 60051]) (new_CircuitBreaker 5 60000, 0) =
     Some (\<lparr>failures = 5, lastFailureTime = 50, state = HalfOpen, threshold = 5, timeout = 60000\<rparr>, 1) \<and>
   breaker_steps (five_failed_calls @ [Arrives 60051, Arrives 60052]) (new_CircuitBreaker 5 60000, 0) =
     Some (\<lparr>failures = 5, lastFailureTime = 50, state = HalfOpen, threshold = 5, timeout = 60000\<rparr>, 2) \<and>
   breaker_steps (five_failed_calls @ [Arrives 60051, Arrives 60052, Fulfils])
       (new_CircuitBreaker 5 60000, 0) =
     Some (\<lparr>failures = 0, lastFailureTime = 50, state = Closed, threshold = 5, timeout = 60000\<rparr>, 1) \<and>
   breaker_steps overlapping_probe (new_CircuitBreaker 5 60000, 0) =
     Some (\<lparr>failures = 1, lastFailureTime = 60070, state = Closed, threshold = 5, timeout = 60000\<rparr>, 0) \<and>
   breaker_steps (Arrives 0 # five_failed_calls) (new_CircuitBreaker 5 60000, 0) =
     Some (\<lparr>failures = 5, lastFailureTime = 50, state = Open, threshold = 5, timeout = 60000\<rparr>, 1) \<and>
   breaker_steps slow_call (new_CircuitBreaker 5 60000, 0) =
     Some (\<lparr>failures = 0, lastFailureTime = 50, state = Closed, threshold = 5, timeout = 60000\<rparr>, 0)"
  by code_simp

text \<open>
  Claim C4, amended. Take a breaker built with threshold \<open>th\<close> and cooldown \<open>t\<close> and used
  through any sequence of calls of \<^verbatim>\<open>execute\<close> and \<^verbatim>\<open>reset\<close> in which every call of \<^verbatim>\<open>execute\<close>
  has settled before the next call is made, and let \<open>fn\<close> be the operation of the next call
  of \<^verbatim>\<open>execute\<close>, settled too before anything else touches the breaker. Between calls the
  breaker is closed or open. Closed: the call is let through with the breaker as it is;
  the success of the operation leaves the breaker closed with the failure count at zero,
  its failure adds one to the count, records the time, and opens the breaker exactly when
  the count has reached the threshold. Open, cooldown not elapsed
  (\<^verbatim>\<open>now - lastFailureTime > timeout\<close> is false): the call fails with the service-unavailable
  error, and neither the breaker nor the surroundings change, whatever the operation is:
  it is not invoked. Open, cooldown elapsed: the breaker goes half-open, which is the state
  the operation sees when it is invoked as a probe; a successful probe closes the breaker
  with the count reset to zero, a failed probe opens it again.
\<close>

theorem circuit_breaker_transitions:
  assumes "breaker_calls now cs (new_CircuitBreaker th t) s0 = (cb, s)"
  shows "(state cb = Closed \<or> state cb = Open) \<and>
     (state cb = Closed \<longrightarrow>
        gate (now s) cb = Inr cb \<and>
        (case fn (Closed, failures cb, lastFailureTime cb) s of
           (Inr v, s') \<Rightarrow>
             execute now fn cb s = (Inr v, cb\<lparr>failures := 0, state := Closed\<rparr>, s')
         | (Inl e, s') \<Rightarrow>
             execute now fn cb s =
               (Inl e, cb\<lparr>failures := failures cb + 1, lastFailureTime := now s',
                          state := (if th \<le> failures cb + 1 then Open else Closed)\<rparr>, s'))) \<and>
     (state cb = Open \<and> \<not> now s - lastFailureTime cb > t \<longrightarrow>
        gate (now s) cb = Inl circuit_open_error \<and>
        execute now fn cb s = (Inl circuit_open_error, cb, s)) \<and>
     (state cb = Open \<and> now s - lastFailureTime cb > t \<longrightarrow>
        gate (now s) cb = Inr (cb\<lparr>state := HalfOpen\<rparr>) \<and>
        (case fn (HalfOpen, failures cb, lastFailureTime cb) s of
           (Inr v, s') \<Rightarrow>
             execute now fn cb s = (Inr v, cb\<lparr>failures := 0, state := Closed\<rparr>, s')
         | (Inl e, s') \<Rightarrow>
             execute now fn cb s =
               (Inl e, cb\<lparr>failures := failures cb + 1, lastFailureTime := now s',
                          state := Open\<rparr>, s')))"
proof -
  have ok: "breaker_ok th t cb"
    using ok_calls[OF ok_new assms] .
  then have st: "state cb = Closed \<or> state cb = Open"
    and par: "threshold cb = th" "timeout cb = t"
    and op: "state cb = Open \<Longrightarrow> th \<le> failures cb"
    by (auto simp: breaker_ok_def split: breaker_state.splits)
  have closed: "state cb = Closed \<longrightarrow>
        gate (now s) cb = Inr cb \<and>
        (case fn (Closed, failures cb, lastFailureTime cb) s of
           (Inr v, s') \<Rightarrow>
             execute now fn cb s = (Inr v, cb\<lparr>failures := 0, state := Closed\<rparr>, s')
         | (Inl e, s') \<Rightarrow>
             execute now fn cb s =
               (Inl e, cb\<lparr>failures := failures cb + 1, lastFailureTime := now s',
                          state := (if th \<le> failures cb + 1 then Open else Closed)\<rparr>, s'))"
    using par
    by (auto simp: execute_def gate_def settle_def getState_def onSuccess_def onFailure_def Let_def
             split: prod.splits sum.splits)
  have rejected: "state cb = Open \<and> \<not> now s - lastFailureTime cb > t \<longrightarrow>
        gate (now s) cb = Inl circuit_open_error \<and>
        execute now fn cb s = (Inl circuit_open_error, cb, s)"
    using par by (simp add: execute_def gate_def)
  have probe: "state cb = Open \<and> now s - lastFailureTime cb > t \<longrightarrow>
        gate (now s) cb = Inr (cb\<lparr>state := HalfOpen\<rparr>) \<and>
        (case fn (HalfOpen, failures cb, lastFailureTime cb) s of
           (Inr v, s') \<Rightarrow>
             execute now fn cb s = (Inr v, cb\<lparr>failures := 0, state := Closed\<rparr>, s')
         | (Inl e, s') \<Rightarrow>
             execute now fn cb s =
               (Inl e, cb\<lparr>failures := failures cb + 1, lastFailureTime := now s',
                          state := Open\<rparr>, s'))"
    using par op
    by (auto simp: execute_def gate_def settle_def getState_def onSuccess_def onFailure_def Let_def
             split: prod.splits sum.splits)
  show ?thesis using st closed rejected probe by blast
qed

lemma five_failures:
  "breaker_calls clock (replicate 5 (Execute failing_op)) (new_CircuitBreaker 5 60000) fresh_world =
     (\<lparr>failures = 5, lastFailureTime = 50, state = Open, threshold = 5, timeout = 60000\<rparr>,
      \<lparr>clock = 50, invocations = 5\<rparr>)"
  by (simp add: numeral_eq_Suc execute_def gate_def settle_def onFailure_def failing_op_def
        new_CircuitBreaker_def fresh_world_def Let_def)

theorem circuit_breaker_transitions_witness:
  "breaker_calls clock ([] :: (test_world, string) breaker_call list) (new_CircuitBreaker 5 60000) fresh_world =
     (new_CircuitBreaker 5 60000, fresh_world) \<and>
   execute clock failing_op (new_CircuitBreaker 5 60000) fresh_world =
     (Inl (Error ''503 Service Unavailable''),
      \<lparr>failures = 1, lastFailureTime = 10, state = Closed, threshold = 5, timeout = 60000\<rparr>,
      \<lparr>clock = 10, invocations = 1\<rparr>) \<and>
   breaker_calls clock (replicate 5 (Execute failing_op)) (new_CircuitBreaker 5 60000) fresh_world =
     (\<lparr>failures = 5, lastFailureTime = 50, state = Open, threshold = 5, timeout = 60000\<rparr>,
      \<lparr>clock = 50, invocations = 5\<rparr>) \<and>
   execute clock succeeding_op
       \<lparr>failures = 5, lastFailureTime = 50, state = Open, threshold = 5, timeout = 60000\<rparr>
       \<lparr>clock = 50, invocations = 5\<rparr> =
     (Inl circuit_open_error,
      \<lparr>failures = 5, lastFailureTime = 50, state = Open, threshold = 5, timeout = 60000\<rparr>,
      \<lparr>clock = 50, invocations = 5\<rparr>) \<and>
   breaker_calls clock (replicate 5 (Execute failing_op) @ [Meanwhile (later 60001)])
       (new_CircuitBreaker 5 60000) fresh_world =
     (\<lparr>failures = 5, lastFailureTime = 50, state = Open, threshold = 5, timeout = 60000\<rparr>,
      \<lparr>clock = 60051, invocations = 5\<rparr>) \<and>
   gate 60051 \<lparr>failures = 5, lastFailureTime = 50, state = Open, threshold = 5, timeout = 60000\<rparr> =
     Inr \<lparr>failures = 5, lastFailureTime = 50, state = HalfOpen, threshold = 5, timeout = 60000\<rparr> \<and>
   execute clock reporting_op
       \<lparr>failures = 5, lastFailureTime = 50, state = Open, threshold = 5, timeout = 60000\<rparr>
       \<lparr>clock = 60051, invocations = 5\<rparr> =
     (Inr HalfOpen,
      \<lparr>failures = 0, lastFailureTime = 50, state = Closed, threshold = 5, timeout = 60000\<rparr>,
      \<lparr>clock = 60061, invocations = 6\<rparr>) \<and>
   execute clock failing_op
       \<lparr>failures = 5, lastFailureTime = 50, state = Open, threshold = 5, timeout = 60000\<rparr>
       \<lparr>clock = 60051, invocations = 5\<rparr> =
     (Inl (Error ''503 Service Unavailable''),
      \<lparr>failures = 6, lastFailureTime = 60061, state = Open, threshold = 5, timeout = 60000\<rparr>,
      \<lparr>clock = 60061, invocations = 6\<rparr>)"
proof -
  have r1: "breaker_calls clock ([] :: (test_world, string) breaker_call list)
      (new_CircuitBreaker 5 60000) fresh_world = (new_CircuitBreaker 5 60000, fresh_world)"
    by simp
  have r2: "breaker_calls clock (replicate 5 (Execute failing_op)) (new_CircuitBreaker 5 60000)
      fresh_world =
     (\<lparr>failures = 5, lastFailureTime = 50, state = Open, threshold = 5, timeout = 60000\<rparr>,
      \<lparr>clock = 50, invocations = 5\<rparr>)"
    by (rule five_failures)
  have r3: "breaker_calls clock (replicate 5 (Execute failing_op) @ [Meanwhile (later 60001)])
       (new_CircuitBreaker 5 60000) fresh_world =
     (\<lparr>failures = 5, lastFailureTime = 50, state = Open, threshold = 5, timeout = 60000\<rparr>,
      \<lparr>clock = 60051, invocations = 5\<rparr>)"
    by (simp add: numeral_eq_Suc execute_def gate_def settle_def onFailure_def failing_op_def
        new_CircuitBreaker_def fresh_world_def later_def Let_def)
  note t1 = circuit_breaker_transitions[OF r1, where fn = failing_op]
  note t2 = circuit_breaker_transitions[OF r2, where fn = succeeding_op]
  note t3 = circuit_breaker_transitions[OF r3, where fn = reporting_op]
  note t4 = circuit_breaker_transitions[OF r3, where fn = failing_op]
  have e1: "execute clock failing_op (new_CircuitBreaker 5 60000) fresh_world =
     (Inl (Error ''503 Service Unavailable''),
      \<lparr>failures = 1, lastFailureTime = 10, state = Closed, threshold = 5, timeout = 60000\<rparr>,
      \<lparr>clock = 10, invocations = 1\<rparr>)"
    using t1 by (simp add: new_CircuitBreaker_def fresh_world_def failing_op_def)
  have e2: "execute clock succeeding_op
       \<lparr>failures = 5, lastFailureTime = 50, state = Open, threshold = 5, timeout = 60000\<rparr>
       \<lparr>clock = 50, invocations = 5\<rparr> =
     (Inl circuit_open_error,
      \<lparr>failures = 5, lastFailureTime = 50, state = Open, threshold = 5, timeout = 60000\<rparr>,
      \<lparr>clock = 50, invocations = 5\<rparr>)"
    using t2 by simp
  have g3: "gate 60051
       \<lparr>failures = 5, lastFailureTime = 50, state = Open, threshold = 5, timeout = 60000\<rparr> =
     Inr \<lparr>failures = 5, lastFailureTime = 50, state = HalfOpen, threshold = 5, timeout = 60000\<rparr>"
    using t3 by simp
  have e3: "execute clock reporting_op
       \<lparr>failures = 5, lastFailureTime = 50, state = Open, threshold = 5, timeout = 60000\<rparr>
       \<lparr>clock = 60051, invocations = 5\<rparr> =
     (Inr HalfOpen,
      \<lparr>failures = 0, lastFailureTime = 50, state = Closed, threshold = 5, timeout = 60000\<rparr>,
      \<lparr>clock = 60061, invocations = 6\<rparr>)"
    using t3 by (auto simp: reporting_op_def)
  have e4: "execute clock failing_op
       \<lparr>failures = 5, lastFailureTime = 50, state = Open, threshold = 5, timeout = 60000\<rparr>
       \<lparr>clock = 60051, invocations = 5\<rparr> =
     (Inl (Error ''503 Service Unavailable''),
      \<lparr>failures = 6, lastFailureTime = 60061, state = Open, threshold = 5, timeout = 60000\<rparr>,
      \<lparr>clock = 60061, invocations = 6\<rparr>)"
    using t4 by (auto simp: failing_op_def)
  show ?thesis using r1 r2 r3 e1 e2 g3 e3 e4 by simp
qed

subsection \<open>Retry with backoff\<close>

text \<open>
  Claim C6, as stated, fails where the product \<open>baseDelay * backoffMultiplier ^ i\<close> is not a
  double. With \<^verbatim>\<open>{ maxRetries: 3, baseDelay: 129140163, maxDelay: 1e20,
  backoffMultiplier: 129140163 }\<close>, all three of them doubles, and an operation that always
  fails, the wait after the failed attempt of index 1 is 16677181699666568, where
  \<open>min (129140163 * 129140163 ^ 1) (10 ^ 20)\<close> is 16677181699666569.
\<close>

theorem withRetry_wait_rounded_counterexample:
  "to_double 129140163 = baseDelay large_options \<and>
   to_double 129140163 = backoffMultiplier large_options \<and>
   to_double 100000000000000000000 = maxDelay large_options \<and>
   withRetry binary64 throws_string large_options 0 =
     (Inl (LLMError 3 (Some (Error ''Unknown error''))),
      [Call, Sleep (Num 129140163), Call, Sleep (Num 16677181699666568), Call], 3) \<and>
   min (129140163 * 129140163 ^ 1) 100000000000000000000 = (16677181699666569 :: rat) \<and>
   Num 16677181699666568 \<noteq> Num (min (129140163 * 129140163 ^ 1) 100000000000000000000)"
  by code_simp

text \<open>
  Claim C6, amended. The events of every run of \<^verbatim>\<open>withRetry\<close> are: for each attempt index \<open>i\<close>
  but the last, the invocation followed by a wait of
  \<^verbatim>\<open>Math.min(baseDelay * Math.pow(backoffMultiplier, i), maxDelay)\<close> as the number arithmetic
  computes it, then the last invocation with no wait after it. In double arithmetic that
  wait is \<open>min (baseDelay * backoffMultiplier ^ i) maxDelay\<close> whenever \<open>baseDelay\<close> and
  \<open>backoffMultiplier\<close> are integers with \<open>backoffMultiplier ^ i\<close> and
  \<open>baseDelay * backoffMultiplier ^ i\<close> below \<open>2 ^ 53\<close> in magnitude. With \<open>baseDelay = 1000\<close>,
  \<open>backoffMultiplier = 2\<close>, \<open>maxDelay = 3000\<close> and four failing attempts the waits are 1000,
  2000 and 3000: the wait before attempt index 3 is 3000, not 4000. With \<open>baseDelay = 100\<close>,
  \<open>backoffMultiplier = 1.5\<close>, \<open>maxDelay = 1000\<close> they are 100, 150 and 225.
\<close>

theorem withRetry_backoff_schedule:
  "(case withRetry js fn opts s of
      (r, evs, s') \<Rightarrow>
        evs = (if calls evs = 0 then []
               else concat (map (\<lambda>i. [Call,
                                        Sleep (Math_min js
                                                 (times js (baseDelay opts)
                                                    (Math_pow js (backoffMultiplier opts) i))
                                                 (maxDelay opts))])
                              [0..<calls evs - 1]) @ [Call]))
   \<and> (\<bar>m ^ i\<bar> < 2 ^ 53 \<and> \<bar>b * m ^ i\<bar> < 2 ^ 53 \<longrightarrow>
        Math_min binary64
          (times binary64 (Num (of_int b)) (Math_pow binary64 (Num (of_int m)) i)) (Num d) =
        Num (min (of_int b * of_int m ^ i) d))
   \<and> fst (snd (withRetry binary64 throws_string (example_options 4 retry_every) 0)) =
       [Call, Sleep (Num 1000), Call, Sleep (Num 2000), Call, Sleep (Num 3000), Call]
   \<and> fst (snd (withRetry binary64 throws_string fractional_options 0)) =
       [Call, Sleep (Num 100), Call, Sleep (Num 150), Call, Sleep (Num 225), Call]"
proof -
  obtain r evs s' where w: "withRetry js fn opts s = (r, evs, s')"
    by (cases "withRetry js fn opts s") auto
  have sched: "evs = backoff_schedule js opts 0 (calls evs)"
    using loop_schedule[where js = js and opts = opts and fn = fn and attempt = 0 and le = None
        and s = s] w
    by (simp add: withRetry_def)
  have closed: "backoff_schedule js opts 0 (calls evs) =
              (if calls evs = 0 then []
               else concat (map (\<lambda>i. [Call,
                                        Sleep (Math_min js
                                                 (times js (baseDelay opts)
                                                    (Math_pow js (backoffMultiplier opts) i))
                                                 (maxDelay opts))])
                              [0..<calls evs - 1]) @ [Call])"
    using backoff_schedule_closed[where a = 0 and js = js and opts = opts and n = "calls evs"]
    by (simp add: delay_def)
  have 1: "evs = (if calls evs = 0 then []
               else concat (map (\<lambda>i. [Call,
                                        Sleep (Math_min js
                                                 (times js (baseDelay opts)
                                                    (Math_pow js (backoffMultiplier opts) i))
                                                 (maxDelay opts))])
                              [0..<calls evs - 1]) @ [Call])"
    by (rule trans[OF sched closed])
  have 2: "\<bar>m ^ i\<bar> < 2 ^ 53 \<and> \<bar>b * m ^ i\<bar> < 2 ^ 53 \<longrightarrow>
        Math_min binary64
          (times binary64 (Num (of_int b)) (Math_pow binary64 (Num (of_int m)) i)) (Num d) =
        Num (min (of_int b * of_int m ^ i) d)"
    by (simp add: binary64_def delay_exact)
  have 3: "fst (snd (withRetry binary64 throws_string (example_options 4 retry_every) 0)) =
       [Call, Sleep (Num 1000), Call, Sleep (Num 2000), Call, Sleep (Num 3000), Call]"
    by code_simp
  have 4: "fst (snd (withRetry binary64 throws_string fractional_options 0)) =
       [Call, Sleep (Num 100), Call, Sleep (Num 150), Call, Sleep (Num 225), Call]"
    by code_simp
  show ?thesis using w 1 2 3 4 by simp
qed

theorem withRetry_backoff_schedule_witness:
  "\<bar>(2 :: int) ^ 2\<bar> < 2 ^ 53 \<and> \<bar>(1000 :: int) * 2 ^ 2\<bar> < 2 ^ 53 \<and>
   Math_min binary64 (times binary64 (Num 1000) (Math_pow binary64 (Num 2) 2)) (Num 3000) =
     Num 3000 \<and>
   withRetry binary64 throws_string (example_options 4 retry_every) 0 =
     (Inl (LLMError 4 (Some (Error ''Unknown error''))),
      [Call, Sleep (Num 1000), Call, Sleep (Num 2000), Call, Sleep (Num 3000), Call], 4)"
proof -
  have h: "\<bar>(2 :: int) ^ 2\<bar> < 2 ^ 53 \<and> \<bar>(1000 :: int) * 2 ^ 2\<bar> < 2 ^ 53" by simp
  note t = withRetry_backoff_schedule[where js = binary64 and fn = throws_string
      and opts = "example_options 4 retry_every" and s = 0
      and m = 2 and i = 2 and b = 1000 and d = 3000]
  have wait: "Math_min binary64 (times binary64 (Num 1000) (Math_pow binary64 (Num 2) 2))
      (Num 3000) = Num 3000"
    using t[THEN conjunct2, THEN conjunct1, rule_format, OF h] by simp
  have run: "withRetry binary64 throws_string (example_options 4 retry_every) 0 =
     (Inl (LLMError 4 (Some (Error ''Unknown error''))),
      [Call, Sleep (Num 1000), Call, Sleep (Num 2000), Call, Sleep (Num 3000), Call], 4)"
    by code_simp
  show ?thesis using h wait run by simp
qed

text \<open>
  Claim C5, as stated, fails where the claim says that the exhaustion error wraps the last
  underlying error: an operation that rejects with a value that is not an \<^verbatim>\<open>Error\<close> (here the
  string \<open>boom\<close>), under a predicate that retries it, ends in an \<^verbatim>\<open>LLMError\<close> whose
  \<^verbatim>\<open>originalError\<close> is a new \<^verbatim>\<open>Error('Unknown error')\<close>, not the value thrown.
\<close>

theorem withRetry_exhaustion_counterexample:
  "shouldRetry (example_options 1 retry_every) (Thrown_value ''boom'') \<and>
   fst (throws_string 0) = Inl (Thrown_value ''boom'') \<and>
   fst (withRetry binary64 throws_string (example_options 1 retry_every) 0) =
     Inl (LLMError 1 (Some (Error ''Unknown error''))) \<and>
   fst (withRetry binary64 throws_string (example_options 1 retry_every) 0) \<noteq>
     Inl (LLMError 1 (Some (Thrown_value ''boom'')))"
  by code_simp

text \<open>
  Claim C5, amended. If the operation fails twice with errors the predicate accepts and
  then succeeds, \<^verbatim>\<open>withRetry\<close> with \<open>maxRetries = 3\<close> returns the success after exactly 3
  invocations. If \<open>maxRetries\<close> is at least 1 and the first failure is one the predicate
  rejects, the operation is invoked exactly once and that error is propagated unchanged,
  with no wait. If \<open>maxRetries\<close> is at least 1 and every one of the \<open>maxRetries\<close> attempts fails
  with an error the predicate accepts, the operation is invoked \<open>maxRetries\<close> times and
  \<^verbatim>\<open>withRetry\<close> raises the \<^verbatim>\<open>LLMError\<close> that wraps the last error thrown when that is an
  \<^verbatim>\<open>Error\<close> instance, and \<^verbatim>\<open>Error('Unknown error')\<close> in its place otherwise.
\<close>

theorem withRetry_outcomes:
  "(maxRetries opts = 3 \<and> fn s0 = (Inl e1, s1) \<and> shouldRetry opts e1 \<and>
      fn s1 = (Inl e2, s2) \<and> shouldRetry opts e2 \<and> fn s2 = (Inr v, s3)
      \<longrightarrow> (case withRetry js fn opts s0 of (r, evs, s') \<Rightarrow> r = Inr v \<and> calls evs = 3 \<and> s' = s3))
   \<and> (0 < maxRetries opts \<and> fn s0 = (Inl e, s1) \<and> \<not> shouldRetry opts e
      \<longrightarrow> withRetry js fn opts s0 = (Inl e, [Call], s1))
   \<and> (0 < maxRetries opts \<and>
        (\<forall>k < nat (maxRetries opts). \<exists>x. settlement fn s0 k = Inl x \<and> shouldRetry opts x) \<and>
        settlement fn s0 (nat (maxRetries opts) - 1) = Inl e_last
      \<longrightarrow> (case withRetry js fn opts s0 of
             (r, evs, s') \<Rightarrow>
               r = Inl (LLMError (maxRetries opts)
                     (Some (if instanceof_Error e_last then e_last else Error ''Unknown error'')))
               \<and> calls evs = nat (maxRetries opts)))"
proof (intro conjI impI)
  assume a: "maxRetries opts = 3 \<and> fn s0 = (Inl e1, s1) \<and> shouldRetry opts e1 \<and>
      fn s1 = (Inl e2, s2) \<and> shouldRetry opts e2 \<and> fn s2 = (Inr v, s3)"
  then have m: "maxRetries opts = 3" by simp
  have 3: "withRetry_loop js opts fn 2 le s2 = (Inr v, [Call], s3)" for le
    using a by (intro loop_success) auto
  have 2: "withRetry_loop js opts fn 1 le s1 = (Inr v, [Call, Sleep (delay js opts 1), Call], s3)" for le
    using a 3 by (subst loop_retry_step[where x = e2 and s' = s2]) auto
  have 1: "withRetry_loop js opts fn 0 le s0 =
      (Inr v, [Call, Sleep (delay js opts 0), Call, Sleep (delay js opts 1), Call], s3)" for le
    using a 2 by (subst loop_retry_step[where x = e1 and s' = s1]) auto
  show "case withRetry js fn opts s0 of (r, evs, s') \<Rightarrow> r = Inr v \<and> calls evs = 3 \<and> s' = s3"
    by (simp add: withRetry_def 1)
next
  assume "0 < maxRetries opts \<and> fn s0 = (Inl e, s1) \<and> \<not> shouldRetry opts e"
  then show "withRetry js fn opts s0 = (Inl e, [Call], s1)"
    unfolding withRetry_def by (intro loop_reject) auto
next
  assume a: "0 < maxRetries opts \<and>
        (\<forall>k < nat (maxRetries opts). \<exists>x. settlement fn s0 k = Inl x \<and> shouldRetry opts x) \<and>
        settlement fn s0 (nat (maxRetries opts) - 1) = Inl e_last"
  show "case withRetry js fn opts s0 of
             (r, evs, s') \<Rightarrow>
               r = Inl (LLMError (maxRetries opts)
                     (Some (if instanceof_Error e_last then e_last else Error ''Unknown error'')))
               \<and> calls evs = nat (maxRetries opts)"
    unfolding withRetry_def
    using a by (intro loop_all_fail) auto
qed

theorem withRetry_outcomes_witness:
  "(maxRetries (example_options 3 retry_every) = 3 \<and>
    fails_twice 0 = (Inl (Error ''fetch failed''), 1) \<and>
    fails_twice 1 = (Inl (Error ''fetch failed''), 2) \<and>
    fails_twice 2 = (Inr ''done'', 3) \<and>
    shouldRetry (example_options 3 retry_every) (Error ''fetch failed'') \<and>
    (case withRetry binary64 fails_twice (example_options 3 retry_every) 0 of
       (r, evs, s') \<Rightarrow> r = Inr ''done'' \<and> calls evs = 3 \<and> s' = 3))
   \<and> (throws_string 0 = (Inl (Thrown_value ''boom''), 1) \<and>
      \<not> shouldRetry (example_options 3 instanceof_Error) (Thrown_value ''boom'') \<and>
      withRetry binary64 throws_string (example_options 3 instanceof_Error) 0 =
        (Inl (Thrown_value ''boom''), [Call], 1))
   \<and> (settlement always_unavailable 0 0 = Inl (Error ''503 Service Unavailable'') \<and>
      settlement always_unavailable 0 1 = Inl (Error ''503 Service Unavailable'') \<and>
      (case withRetry binary64 always_unavailable (example_options 2 retry_every) 0 of
         (r, evs, s') \<Rightarrow>
           r = Inl (LLMError 2 (Some (Error ''503 Service Unavailable''))) \<and> calls evs = 2))"
proof -
  have a: "maxRetries (example_options 3 retry_every) = 3 \<and>
      fails_twice 0 = (Inl (Error ''fetch failed''), 1) \<and>
      shouldRetry (example_options 3 retry_every) (Error ''fetch failed'') \<and>
      fails_twice 1 = (Inl (Error ''fetch failed''), 2) \<and>
      shouldRetry (example_options 3 retry_every) (Error ''fetch failed'') \<and>
      fails_twice 2 = (Inr ''done'', 3)"
    by (simp add: example_options_def retry_every_def fails_twice_def)
  have b: "0 < maxRetries (example_options 3 instanceof_Error) \<and>
      throws_string 0 = (Inl (Thrown_value ''boom''), 1) \<and>
      \<not> shouldRetry (example_options 3 instanceof_Error) (Thrown_value ''boom'')"
    by (simp add: example_options_def throws_string_def)
  have s0: "settlement always_unavailable 0 0 = Inl (Error ''503 Service Unavailable'')"
    by (simp add: settlement_def always_unavailable_def)
  have s1: "settlement always_unavailable 0 1 = Inl (Error ''503 Service Unavailable'')"
    by (simp add: settlement_def always_unavailable_def)
  have all: "\<forall>k < nat (maxRetries (example_options 2 retry_every)).
      \<exists>x. settlement always_unavailable 0 k = Inl x \<and> shouldRetry (example_options 2 retry_every) x"
    using s0 s1 by (auto simp: example_options_def retry_every_def less_Suc_eq numeral_2_eq_2)
  have c: "0 < maxRetries (example_options 2 retry_every) \<and>
      (\<forall>k < nat (maxRetries (example_options 2 retry_every)).
         \<exists>x. settlement always_unavailable 0 k = Inl x \<and> shouldRetry (example_options 2 retry_every) x) \<and>
      settlement always_unavailable 0 (nat (maxRetries (example_options 2 retry_every)) - 1) =
        Inl (Error ''503 Service Unavailable'')"
    using all s1 by (simp add: example_options_def)
  note thm_a = withRetry_outcomes[where js = binary64
      and opts = "example_options 3 retry_every" and fn = fails_twice
      and ?s0.0 = 0 and ?e1.0 = "Error ''fetch failed''" and ?s1.0 = 1
      and ?e2.0 = "Error ''fetch failed''" and ?s2.0 = 2 and v = "''done''" and ?s3.0 = 3,
      THEN conjunct1, rule_format, OF a]
  note thm_b = withRetry_outcomes[where js = binary64
      and opts = "example_options 3 instanceof_Error"
      and fn = throws_string and ?s0.0 = 0 and e = "Thrown_value ''boom''" and ?s1.0 = 1,
      THEN conjunct2, THEN conjunct1, rule_format, OF b]
  note thm_c = withRetry_outcomes[where js = binary64
      and opts = "example_options 2 retry_every"
      and fn = always_unavailable and ?s0.0 = 0 and e_last = "Error ''503 Service Unavailable''",
      THEN conjunct2, THEN conjunct2, rule_format, OF c]
  show ?thesis
    using a b s0 s1 thm_a thm_b thm_c by (simp add: example_options_def)
qed

section \<open>Properties of the storage adapters\<close>

subsection \<open>The local adapter outside a browser\<close>

lemma getAll_server [simp]: "\<not> window_defined env \<Longrightarrow> getAll env = \<lparr>conversations = []\<rparr>"
  by (simp add: getAll_def)

lemma saveAll_server [simp]: "\<not> window_defined env \<Longrightarrow> saveAll env data = (Inr (), env)"
  by (simp add: saveAll_def)

lemma get_property_empty [simp]:
  "get_property [] key = (if key \<in> set inherited_names then Inherited key else Missing)"
  by (simp add: get_property_def)

text \<open>
  Claim C10 on the code. Where \<^verbatim>\<open>window\<close> is undefined, every read of the local adapter sees
  the empty document and no operation changes what is stored. \<^verbatim>\<open>createConversation\<close> and
  \<^verbatim>\<open>clearAll\<close> complete without raising, and \<^verbatim>\<open>deleteMessage\<close> and \<^verbatim>\<open>updateMessage\<close> fail with
  the message-not-found error. For an id that is not the name of a property every object
  inherits, \<^verbatim>\<open>getConversation\<close> returns \<^verbatim>\<open>null\<close>, also right after \<^verbatim>\<open>createConversation\<close> returned
  a conversation with that id, and \<^verbatim>\<open>saveMessage\<close>, \<^verbatim>\<open>updateConversation\<close> and
  \<^verbatim>\<open>deleteConversation\<close> fail with the conversation-not-found error. For an id that is such a
  name (\<^verbatim>\<open>constructor\<close>, \<^verbatim>\<open>toString\<close>, ...) the empty document has a value under it:
  \<^verbatim>\<open>getConversation\<close> returns that value, \<^verbatim>\<open>saveMessage\<close> fails with a \<^verbatim>\<open>TypeError\<close>, not with the
  conversation-not-found error, and \<^verbatim>\<open>updateConversation\<close> and \<^verbatim>\<open>deleteConversation\<close> complete.
\<close>

theorem local_adapter_without_window:
  assumes "\<not> window_defined env"
  shows "getAll env = \<lparr>conversations = []\<rparr> \<and>
    local_getMessages env conversationId = [] \<and>
    local_listConversations env = [] \<and>
    local_getConversation env conversationId =
      (if conversationId \<in> set inherited_names then Inherited conversationId else Missing) \<and>
    local_createConversation env uuid now1 now2 title_arg =
      (Inr \<lparr>conv_id = uuid, title = Some (title_or_default title_arg), messages = [],
            createdAt = now1, updatedAt = now2,
            conv_metadata = Some \<lparr>totalTokens = Some 0, messageCount = Some 0, userId = None\<rparr>\<rparr>,
       env) \<and>
    local_getConversation (snd (local_createConversation env uuid now1 now2 title_arg)) uuid =
      (if uuid \<in> set inherited_names then Inherited uuid else Missing) \<and>
    local_clearAll env = (Inr (), env) \<and>
    local_saveMessage env now conversationId message =
      (if conversationId \<in> set inherited_names then (Inl (TypeError ''push''), env)
       else (Inl (ConversationNotFound conversationId), env)) \<and>
    local_deleteMessage env now messageId = (Inl (MessageNotFound messageId), env) \<and>
    local_updateMessage env now messageId updates = (Inl (MessageNotFound messageId), env) \<and>
    local_updateConversation env now conversationId conv_updates =
      (if conversationId \<in> set inherited_names then (Inr (), None)
       else (Inl (ConversationNotFound conversationId), Some env)) \<and>
    local_deleteConversation env conversationId =
      (if conversationId \<in> set inherited_names then (Inr (), env)
       else (Inl (ConversationNotFound conversationId), env))"
  using assms
  by (simp add: local_getMessages_def local_listConversations_def local_getConversation_def
        local_createConversation_def local_clearAll_def local_saveMessage_def
        local_deleteMessage_def local_updateMessage_def local_updateConversation_def
        local_deleteConversation_def Let_def)

theorem local_adapter_without_window_witness:
  "\<not> window_defined server_side \<and>
   fst (local_createConversation server_side ''c1'' 100 100 (Some ''Trip Planning'')) =
     Inr \<lparr>conv_id = ''c1'', title = Some ''Trip Planning'', messages = [],
          createdAt = 100, updatedAt = 100,
          conv_metadata = Some \<lparr>totalTokens = Some 0, messageCount = Some 0, userId = None\<rparr>\<rparr> \<and>
   local_getConversation
     (snd (local_createConversation server_side ''c1'' 100 100 (Some ''Trip Planning''))) ''c1'' =
     Missing \<and>
   local_saveMessage server_side 1001 ''c1'' kyoto_question =
     (Inl (ConversationNotFound ''c1''), server_side) \<and>
   local_getConversation server_side ''constructor'' = Inherited ''constructor'' \<and>
   local_saveMessage server_side 1001 ''constructor'' kyoto_question =
     (Inl (TypeError ''push''), server_side) \<and>
   local_updateConversation server_side 1001 ''constructor'' no_updates = (Inr (), None) \<and>
   local_deleteConversation server_side ''constructor'' = (Inr (), server_side)"
proof -
  have h: "\<not> window_defined server_side" by (simp add: server_side_def)
  have c1: "''c1'' \<notin> set inherited_names" by (simp add: inherited_names_def)
  have co: "''constructor'' \<in> set inherited_names" by (simp add: inherited_names_def)
  note a = local_adapter_without_window[OF h, where conversationId = "''c1''" and uuid = "''c1''"
      and ?now1.0 = 100 and ?now2.0 = 100 and title_arg = "Some ''Trip Planning''" and now = 1001
      and message = kyoto_question]
  note b = local_adapter_without_window[OF h, where conversationId = "''constructor''"
      and now = 1001 and message = kyoto_question and conv_updates = no_updates]
  show ?thesis
    using h a b by (simp only: c1 co if_True if_False) (simp add: title_or_default_def)
qed

subsection \<open>clearAll\<close>

text \<open>
  Claim C9. Without a bound user identity (\<^verbatim>\<open>userId\<close> undefined or empty) the remote
  \<^verbatim>\<open>clearAll\<close> fails with the error \<^verbatim>\<open>'Cannot clear all without userId'\<close> and the tables are as
  they were. With an identity it succeeds, the conversation rows left are exactly those
  whose \<^verbatim>\<open>user_id\<close> is another one, and the message rows left are those of conversations
  that were not removed. The local \<^verbatim>\<open>clearAll\<close> takes no identity, succeeds, and leaves no
  conversation to be read.
\<close>

theorem clearAll_scoping:
  "(\<not> truthy user \<longrightarrow> supabase_clearAll user db = (Inl NoUserId, db)) \<and>
   (truthy user \<longrightarrow>
      fst (supabase_clearAll user db) = Inr () \<and>
      conversations_table (snd (supabase_clearAll user db)) =
        filter (\<lambda>r. cr_user_id r \<noteq> user) (conversations_table db) \<and>
      messages_table (snd (supabase_clearAll user db)) =
        filter (\<lambda>m. mr_conversation_id m \<notin>
                      set (map cr_id (filter (\<lambda>r. cr_user_id r = user) (conversations_table db))))
          (messages_table db)) \<and>
   fst (local_clearAll env) = Inr () \<and>
   conversations (getAll (snd (local_clearAll env))) = [] \<and>
   local_listConversations (snd (local_clearAll env)) = []"
  by (simp add: supabase_clearAll_def delete_conversations_def local_clearAll_def getAll_def
        local_listConversations_def)

theorem clearAll_scoping_witness:
  "\<not> truthy None \<and> supabase_clearAll None shared_tables = (Inl NoUserId, shared_tables) \<and>
   truthy (Some ''alice'') \<and>
   map cr_id (conversations_table shared_tables) = [''a1'', ''b1''] \<and>
   map cr_id (conversations_table (snd (supabase_clearAll (Some ''alice'') shared_tables))) = [''b1''] \<and>
   map mr_id (messages_table (snd (supabase_clearAll (Some ''alice'') shared_tables))) = [''m2'']"
proof -
  have n: "\<not> truthy None" by (simp add: truthy_def)
  have a: "truthy (Some ''alice'')" by (simp add: truthy_def)
  have before: "map cr_id (conversations_table shared_tables) = [''a1'', ''b1'']"
    by code_simp
  have kept: "map cr_id (filter (\<lambda>r. cr_user_id r \<noteq> Some ''alice'') (conversations_table shared_tables))
      = [''b1'']"
    by code_simp
  have kept_messages: "map mr_id (filter (\<lambda>m. mr_conversation_id m \<notin>
        set (map cr_id (filter (\<lambda>r. cr_user_id r = Some ''alice'') (conversations_table shared_tables))))
      (messages_table shared_tables)) = [''m2'']"
    by code_simp
  show ?thesis
    using n a before kept kept_messages
      clearAll_scoping[of None shared_tables] clearAll_scoping[of "Some ''alice''" shared_tables]
    by simp
qed

subsection \<open>The key constraints of the remote tables\<close>

text \<open>Empty tables respect their keys and every operation of the remote adapter keeps them
  respected.\<close>

lemma keys_respected_empty: "keys_respected empty_tables"
  by (simp add: keys_respected_def empty_tables_def)

lemma keys_respected_createConversation:
  "keys_respected db \<Longrightarrow> keys_respected (snd (supabase_createConversation user db uuid now t))"
  by (auto simp: keys_respected_def supabase_createConversation_def insert_conversation_def Let_def
        list_all_iff)

lemma ids_update_conversations:
  assumes "\<And>r. cr_id (f r) = cr_id r"
  shows "map cr_id (conversations_table (update_conversations sel f db)) =
         map cr_id (conversations_table db)"
  using assms by (simp add: update_conversations_def comp_def if_distrib cong: if_cong)

lemma keys_respected_update_conversations:
  assumes "\<And>r. cr_id (f r) = cr_id r" "keys_respected db"
  shows "keys_respected (update_conversations sel f db)"
proof -
  have m: "messages_table (update_conversations sel f db) = messages_table db"
    by (simp add: update_conversations_def)
  show ?thesis
    using assms(2) unfolding keys_respected_def ids_update_conversations[OF assms(1)] m .
qed

lemma keys_respected_insert_message:
  "keys_respected db \<Longrightarrow> insert_message row db = Inr db1 \<Longrightarrow> keys_respected db1"
  by (auto simp: keys_respected_def insert_message_def list_all_iff split: if_splits)

lemma keys_respected_saveMessage:
  assumes "keys_respected db"
  shows "keys_respected (snd (supabase_saveMessage user db now cid m))"
proof (cases "insert_message
             \<lparr>mr_id = msg_id m, mr_conversation_id = cid, mr_role = role m, mr_content = content m,
              mr_created_at = timestamp m,
              mr_metadata = (case msg_metadata m of
                               None \<Rightarrow> empty_message_metadata | Some md \<Rightarrow> md)\<rparr> db")
  case (Inl msg)
  then show ?thesis using assms by (simp add: supabase_saveMessage_def)
next
  case (Inr db1)
  then have "keys_respected db1" using assms keys_respected_insert_message by blast
  then have "keys_respected (update_conversations (\<lambda>r. cr_id r = cid)
                     (\<lambda>r. r\<lparr>cr_updated_at := now\<rparr>) db1)"
    by (intro keys_respected_update_conversations) simp_all
  then show ?thesis using Inr by (simp add: supabase_saveMessage_def)
qed

lemma keys_respected_updateConversation:
  "keys_respected db \<Longrightarrow> keys_respected (snd (supabase_updateConversation user db now cid u))"
  unfolding supabase_updateConversation_def snd_conv
  by (intro keys_respected_update_conversations) simp_all

lemma keys_respected_updateMessage:
  assumes "keys_respected db"
  shows "keys_respected (snd (supabase_updateMessage user db mid u))"
proof -
  let ?g = "\<lambda>r. if mr_id r = mid
      then r\<lparr>mr_content := (case pm_content u of None \<Rightarrow> mr_content r | Some v \<Rightarrow> v),
             mr_metadata := (case pm_metadata u of None \<Rightarrow> mr_metadata r | Some v \<Rightarrow> v)\<rparr>
      else r"
  have t: "snd (supabase_updateMessage user db mid u) = db\<lparr>messages_table := map ?g (messages_table db)\<rparr>"
    by (simp add: supabase_updateMessage_def update_messages_def)
  have i: "map mr_id (map ?g xs) = map mr_id xs" for xs :: "message_row list"
    by (induction xs) auto
  have c: "list_all P (map ?g xs) = list_all P xs"
    if "\<And>r. P (?g r) = P r" for P and xs :: "message_row list"
    using that by (induction xs) auto
  have c': "list_all (\<lambda>m. mr_conversation_id m \<in> S) (map ?g xs) =
      list_all (\<lambda>m. mr_conversation_id m \<in> S) xs" for S and xs :: "message_row list"
    by (rule c) simp
  show ?thesis using assms unfolding t keys_respected_def by (simp add: i c' del: map_map)
qed

lemma keys_respected_deleteMessage:
  "keys_respected db \<Longrightarrow> keys_respected (snd (supabase_deleteMessage user db mid))"
  by (auto simp: keys_respected_def supabase_deleteMessage_def delete_messages_def list_all_iff
        distinct_map_filter)

lemma keys_respected_delete_conversations:
  "keys_respected db \<Longrightarrow> keys_respected (delete_conversations sel db)"
  by (auto simp: keys_respected_def delete_conversations_def list_all_iff distinct_map_filter)

lemma keys_respected_deleteConversation:
  "keys_respected db \<Longrightarrow> keys_respected (snd (supabase_deleteConversation user db cid))"
  by (simp add: supabase_deleteConversation_def keys_respected_delete_conversations)

lemma keys_respected_clearAll:
  "keys_respected db \<Longrightarrow> keys_respected (snd (supabase_clearAll user db))"
  by (simp add: supabase_clearAll_def keys_respected_delete_conversations)

subsection \<open>The cached counts\<close>

text \<open>Where the cached counts of a conversation agree with its messages, they still do
  after the local \<^verbatim>\<open>saveMessage\<close>.\<close>

lemma sum_tokens_snoc:
  "sum_tokens (ms @ [m]) =
     sum_tokens ms + or_zero (case msg_metadata m of None \<Rightarrow> None | Some md \<Rightarrow> tokens md)"
  by (simp add: sum_tokens_def)

lemma get_property_Own: "(get_property obj key = Own c) = (map_of obj key = Some c)"
  by (simp add: get_property_def split: option.splits)

lemma get_property_update [simp]: "get_property (AList.update key c obj) key = Own c"
  by (simp add: get_property_def update_conv')

lemma own_window:
  assumes "local_getConversation env cid = Own c"
  shows "window_defined env"
  using assms
  by (cases "window_defined env")
     (simp_all add: local_getConversation_def get_property_def split: if_splits)

lemma getAll_stored [simp]: "window_defined env \<Longrightarrow> getAll (env\<lparr>stored := Some d\<rparr>) = d"
  by (simp add: getAll_def)

lemma local_saveMessage_Own:
  assumes "local_getConversation env cid = Own c" "\<not> quota_exceeded env"
  shows "local_saveMessage env now cid m =
    (Inr (),
     env\<lparr>stored := Some ((getAll env)\<lparr>conversations :=
       AList.update cid
         (c\<lparr>messages := messages c @ [m], updatedAt := now,
            conv_metadata := Some ((spread_metadata (conv_metadata c))
              \<lparr>messageCount := Some (int (length (messages c @ [m]))),
               totalTokens := Some (
                 or_zero (case conv_metadata c of None \<Rightarrow> None | Some md \<Rightarrow> totalTokens md) +
                 or_zero (case msg_metadata m of None \<Rightarrow> None | Some md \<Rightarrow> tokens md))\<rparr>)\<rparr>)
         (conversations (getAll env))\<rparr>)\<rparr>)"
proof -
  have w: "window_defined env" using assms(1) by (rule own_window)
  have g: "get_property (conversations (getAll env)) cid = Own c"
    using assms(1) by (simp add: local_getConversation_def)
  show ?thesis
    by (simp add: local_saveMessage_def g Let_def saveAll_def w assms(2))
qed

lemma local_saveMessage_keeps_counts:
  assumes "local_getConversation env cid = Own c" "\<not> quota_exceeded env"
    "conv_metadata c = Some md" "totalTokens md = Some t" "counts_agree c"
    "local_getConversation (snd (local_saveMessage env now cid m)) cid = Own c'"
  shows "counts_agree c'"
proof -
  have w: "window_defined env" using assms(1) by (rule own_window)
  have t: "t = sum_tokens (messages c)"
    using assms(3,4,5) by (simp add: counts_agree_def)
  have "local_getConversation (snd (local_saveMessage env now cid m)) cid =
      Own (c\<lparr>messages := messages c @ [m], updatedAt := now,
            conv_metadata := Some ((spread_metadata (conv_metadata c))
              \<lparr>messageCount := Some (int (length (messages c @ [m]))),
               totalTokens := Some (
                 or_zero (case conv_metadata c of None \<Rightarrow> None | Some md \<Rightarrow> totalTokens md) +
                 or_zero (case msg_metadata m of None \<Rightarrow> None | Some md \<Rightarrow> tokens md))\<rparr>)\<rparr>)"
    by (simp add: local_saveMessage_Own[OF assms(1,2)] local_getConversation_def w)
  then have "c' = c\<lparr>messages := messages c @ [m], updatedAt := now,
            conv_metadata := Some ((spread_metadata (conv_metadata c))
              \<lparr>messageCount := Some (int (length (messages c @ [m]))),
               totalTokens := Some (
                 or_zero (case conv_metadata c of None \<Rightarrow> None | Some md \<Rightarrow> totalTokens md) +
                 or_zero (case msg_metadata m of None \<Rightarrow> None | Some md \<Rightarrow> tokens md))\<rparr>)\<rparr>"
    using assms(6) by simp
  then show ?thesis
    using assms(3,4) t
    by (simp add: counts_agree_def spread_metadata_def sum_tokens_snoc or_zero_def)
qed

text \<open>
  Claim C1 on the code. In a browser, create "Trip Planning" and save the user message and
  the assistant message with \<open>tokens = 42\<close>: the local adapter then reads back
  \<open>totalTokens = 42\<close> and \<open>messageCount = 2\<close>, as the claim says. Delete the assistant message:
  the operation succeeds, one message is left, and the conversation still carries
  \<open>totalTokens = 42\<close> and \<open>messageCount = 2\<close>, so the cached counts no longer agree with the
  messages. The same three steps on the remote adapter leave the counts at the zeros
  written at creation although the conversation holds two messages.
\<close>

theorem counts_after_deleteMessage:
  "map_option messages (conversation_of (local_getConversation trip_saved ''c1'')) =
     Some [kyoto_question, kyoto_answer] \<and>
   map_option conv_metadata (conversation_of (local_getConversation trip_saved ''c1'')) =
     Some (Some \<lparr>totalTokens = Some 42, messageCount = Some 2, userId = None\<rparr>) \<and>
   fst (local_deleteMessage trip_saved 3000 ''m2'') = Inr () \<and>
   map_option messages
       (conversation_of
          (local_getConversation (snd (local_deleteMessage trip_saved 3000 ''m2'')) ''c1'')) =
     Some [kyoto_question] \<and>
   map_option conv_metadata
       (conversation_of
          (local_getConversation (snd (local_deleteMessage trip_saved 3000 ''m2'')) ''c1'')) =
     Some (Some \<lparr>totalTokens = Some 42, messageCount = Some 2, userId = None\<rparr>) \<and>
   map_option counts_agree
       (conversation_of
          (local_getConversation (snd (local_deleteMessage trip_saved 3000 ''m2'')) ''c1'')) =
     Some False \<and>
   supabase_getConversation None remote_trip_saved ''c1'' =
     Inr (Some \<lparr>conv_id = ''c1'', title = Some ''Trip Planning'',
                messages = [as_stored kyoto_question, kyoto_answer],
                createdAt = 100, updatedAt = 2001,
                conv_metadata =
                  Some \<lparr>totalTokens = Some 0, messageCount = Some 0, userId = None\<rparr>\<rparr>)"
  by code_simp

subsection \<open>createConversation\<close>

text \<open>
  Claim C7, as stated, fails for the local adapter where \<^verbatim>\<open>window\<close> is undefined:
  \<^verbatim>\<open>createConversation\<close> returns a conversation and \<^verbatim>\<open>getConversation\<close> with its id returns
  \<^verbatim>\<open>null\<close>.
\<close>

theorem createConversation_server_side_counterexample:
  "fst (local_createConversation server_side ''c1'' 100 100 (Some ''Trip Planning'')) =
     Inr \<lparr>conv_id = ''c1'', title = Some ''Trip Planning'', messages = [],
          createdAt = 100, updatedAt = 100,
          conv_metadata = Some \<lparr>totalTokens = Some 0, messageCount = Some 0, userId = None\<rparr>\<rparr> \<and>
   local_getConversation
     (snd (local_createConversation server_side ''c1'' 100 100 (Some ''Trip Planning''))) ''c1'' = Missing"
  by code_simp

lemma embedded_none:
  assumes "keys_respected db" "uuid \<notin> set (map cr_id (conversations_table db))"
  shows "filter (\<lambda>m. mr_conversation_id m = uuid) (messages_table db) = []"
  using assms by (auto simp: keys_respected_def list_all_iff filter_empty_conv)

lemma select_fresh:
  assumes "uuid \<notin> set (map cr_id (conversations_table db))"
  shows "filter (\<lambda>r. cr_id r = uuid) (conversations_table db) = []"
  using assms by (auto simp: filter_empty_conv)

text \<open>
  Claim C7, amended. In a browser whose store accepts the write, the local
  \<^verbatim>\<open>createConversation\<close> returns a conversation with the id the generator produced, the title
  (or the placeholder), no messages, \<^verbatim>\<open>createdAt\<close> and \<^verbatim>\<open>updatedAt\<close> the two clock readings taken
  while the conversation is built (equal when the clock did not move between them), and
  both counts zero; \<^verbatim>\<open>getConversation\<close> with that id then returns that conversation. The
  remote \<^verbatim>\<open>createConversation\<close>, on tables that respect their keys and hold no conversation
  with the generated id, returns such a conversation with \<^verbatim>\<open>createdAt\<close> equal to \<^verbatim>\<open>updatedAt\<close>,
  and \<^verbatim>\<open>getConversation\<close> returns it.
\<close>

theorem createConversation_then_get:
  "(window_defined env \<and> \<not> quota_exceeded env \<longrightarrow>
      fst (local_createConversation env uuid now1 now2 title_arg) =
        Inr \<lparr>conv_id = uuid, title = Some (title_or_default title_arg), messages = [],
             createdAt = now1, updatedAt = now2,
             conv_metadata = Some \<lparr>totalTokens = Some 0, messageCount = Some 0, userId = None\<rparr>\<rparr> \<and>
      local_getConversation (snd (local_createConversation env uuid now1 now2 title_arg)) uuid =
        Own \<lparr>conv_id = uuid, title = Some (title_or_default title_arg), messages = [],
              createdAt = now1, updatedAt = now2,
              conv_metadata = Some \<lparr>totalTokens = Some 0, messageCount = Some 0, userId = None\<rparr>\<rparr>) \<and>
   (keys_respected db \<and> uuid \<notin> set (map cr_id (conversations_table db)) \<longrightarrow>
      fst (supabase_createConversation user db uuid now title_arg) =
        Inr \<lparr>conv_id = uuid, title = Some (title_or_default title_arg), messages = [],
             createdAt = now, updatedAt = now,
             conv_metadata = Some \<lparr>totalTokens = Some 0, messageCount = Some 0, userId = None\<rparr>\<rparr> \<and>
      supabase_getConversation user (snd (supabase_createConversation user db uuid now title_arg)) uuid =
        Inr (Some \<lparr>conv_id = uuid, title = Some (title_or_default title_arg), messages = [],
              createdAt = now, updatedAt = now,
              conv_metadata = Some \<lparr>totalTokens = Some 0, messageCount = Some 0, userId = None\<rparr>\<rparr>))"
proof (intro conjI impI)
  assume a: "window_defined env \<and> \<not> quota_exceeded env"
  then show "fst (local_createConversation env uuid now1 now2 title_arg) =
        Inr \<lparr>conv_id = uuid, title = Some (title_or_default title_arg), messages = [],
             createdAt = now1, updatedAt = now2,
             conv_metadata = Some \<lparr>totalTokens = Some 0, messageCount = Some 0, userId = None\<rparr>\<rparr>"
    by (simp add: local_createConversation_def saveAll_def Let_def)
  from a show "local_getConversation (snd (local_createConversation env uuid now1 now2 title_arg)) uuid =
        Own \<lparr>conv_id = uuid, title = Some (title_or_default title_arg), messages = [],
              createdAt = now1, updatedAt = now2,
              conv_metadata = Some \<lparr>totalTokens = Some 0, messageCount = Some 0, userId = None\<rparr>\<rparr>"
    by (simp add: local_createConversation_def saveAll_def Let_def local_getConversation_def)
next
  assume a: "keys_respected db \<and> uuid \<notin> set (map cr_id (conversations_table db))"
  then show "fst (supabase_createConversation user db uuid now title_arg) =
        Inr \<lparr>conv_id = uuid, title = Some (title_or_default title_arg), messages = [],
             createdAt = now, updatedAt = now,
             conv_metadata = Some \<lparr>totalTokens = Some 0, messageCount = Some 0, userId = None\<rparr>\<rparr>"
    by (simp add: supabase_createConversation_def insert_conversation_def Let_def)
  from a have none: "filter (\<lambda>m. mr_conversation_id m = uuid) (messages_table db) = []"
    and fresh: "filter (\<lambda>r. cr_id r = uuid) (conversations_table db) = []"
    by (simp_all add: embedded_none select_fresh)
  from a show "supabase_getConversation user (snd (supabase_createConversation user db uuid now title_arg)) uuid =
        Inr (Some \<lparr>conv_id = uuid, title = Some (title_or_default title_arg), messages = [],
              createdAt = now, updatedAt = now,
              conv_metadata = Some \<lparr>totalTokens = Some 0, messageCount = Some 0, userId = None\<rparr>\<rparr>)"
    using none fresh
    by (simp add: supabase_createConversation_def insert_conversation_def Let_def
          supabase_getConversation_def mapToConversation_def embedded_messages_def)
qed

theorem createConversation_then_get_witness:
  "window_defined empty_browser \<and> \<not> quota_exceeded empty_browser \<and>
   local_getConversation
       (snd (local_createConversation empty_browser ''c1'' 100 101 (Some ''Trip Planning''))) ''c1'' =
     Own \<lparr>conv_id = ''c1'', title = Some ''Trip Planning'', messages = [],
           createdAt = 100, updatedAt = 101,
           conv_metadata = Some \<lparr>totalTokens = Some 0, messageCount = Some 0, userId = None\<rparr>\<rparr> \<and>
   keys_respected empty_tables \<and> ''c1'' \<notin> set (map cr_id (conversations_table empty_tables)) \<and>
   supabase_getConversation None
       (snd (supabase_createConversation None empty_tables ''c1'' 100 None)) ''c1'' =
     Inr (Some \<lparr>conv_id = ''c1'', title = Some ''New Conversation'', messages = [],
           createdAt = 100, updatedAt = 100,
           conv_metadata = Some \<lparr>totalTokens = Some 0, messageCount = Some 0, userId = None\<rparr>\<rparr>)"
proof -
  have l: "window_defined empty_browser \<and> \<not> quota_exceeded empty_browser"
    by (simp add: empty_browser_def)
  have r: "keys_respected empty_tables \<and> ''c1'' \<notin> set (map cr_id (conversations_table empty_tables))"
    by (simp add: keys_respected_def empty_tables_def)
  show ?thesis
    using l r
      createConversation_then_get[where env = empty_browser and uuid = "''c1''" and ?now1.0 = 100
        and ?now2.0 = 101 and title_arg = "Some ''Trip Planning''", THEN conjunct1]
      createConversation_then_get[where db = empty_tables and uuid = "''c1''" and now = 100
        and user = None and title_arg = None, THEN conjunct2]
    by (simp add: title_or_default_def)
qed

subsection \<open>saveMessage\<close>




lemma timestamp_mapToMessage [simp]: "timestamp (mapToMessage r) = mr_created_at r"
  by (simp add: mapToMessage_def)











subsection \<open>updateMessage\<close>

lemma assign_found_append:
  "assign_found mid u (xs @ ys) =
     (if mid \<in> msg_id ` set xs then assign_found mid u xs @ ys
      else xs @ assign_found mid u ys)"
  by (induction xs) auto

lemma assign_found_split:
  "mid \<notin> msg_id ` set pre \<Longrightarrow> msg_id m = mid \<Longrightarrow>
     assign_found mid u (pre @ m # post) = pre @ assign_Message m u # post"
  by (induction pre) auto

lemma updateMessage_loop_None:
  "(local_updateMessage_loop now mid u convs = None) =
     (mid \<notin> msg_id ` set (concat (map (\<lambda>kc. messages (snd kc)) convs)))"
proof (induction convs)
  case Nil
  then show ?case by simp
next
  case (Cons kc convs)
  obtain k conv where kc: "kc = (k, conv)" by (cases kc)
  show ?case
  proof (cases "find (\<lambda>m. msg_id m = mid) (messages conv)")
    case None
    then have "mid \<notin> msg_id ` set (messages conv)" by (auto simp: find_None_iff)
    then show ?thesis using Cons None kc by auto
  next
    case (Some message)
    then have "mid \<in> msg_id ` set (messages conv)"
      by (auto simp: find_Some_iff image_iff)
    then show ?thesis using Some kc by auto
  qed
qed

lemma updateMessage_loop_Some:
  "local_updateMessage_loop now mid u convs = Some convs' \<Longrightarrow>
     concat (map (\<lambda>kc. messages (snd kc)) convs') =
       assign_found mid u (concat (map (\<lambda>kc. messages (snd kc)) convs))"
proof (induction convs arbitrary: convs')
  case Nil
  then show ?case by simp
next
  case (Cons kc convs)
  obtain k conv where kc: "kc = (k, conv)" by (cases kc)
  show ?case
  proof (cases "find (\<lambda>m. msg_id m = mid) (messages conv)")
    case None
    then have no: "mid \<notin> msg_id ` set (messages conv)" by (auto simp: find_None_iff)
    from Cons.prems None kc obtain rest' where
      r: "local_updateMessage_loop now mid u convs = Some rest'" "convs' = (k, conv) # rest'"
      by auto
    show ?thesis using Cons.IH[OF r(1)] r(2) kc no by (simp add: assign_found_append)
  next
    case (Some message)
    then have yes: "mid \<in> msg_id ` set (messages conv)"
      by (auto simp: find_Some_iff image_iff)
    from Cons.prems Some kc have
      "convs' = (k, conv\<lparr>messages := assign_found mid u (messages conv), updatedAt := now\<rparr>) # convs"
      by auto
    then show ?thesis using kc yes by (simp add: assign_found_append)
  qed
qed

lemma assign_overwrite:
  "pm_id u = None \<Longrightarrow> pm_role u = None \<Longrightarrow> pm_timestamp u = None \<Longrightarrow>
     assign_Message m u = overwrite_supplied m u"
  by (simp add: assign_Message_def overwrite_supplied_def)

lemma all_messages_window: "all_messages env \<noteq> [] \<Longrightarrow> window_defined env"
  by (cases "window_defined env") (simp_all add: all_messages_def getAll_def)

lemma local_updateMessage_missing:
  assumes "mid \<notin> set (map msg_id (all_messages env))"
  shows "local_updateMessage env now mid u = (Inl (MessageNotFound mid), env)"
proof -
  have "local_updateMessage_loop now mid u (conversations (getAll env)) = None"
    using assms by (simp add: updateMessage_loop_None all_messages_def)
  then show ?thesis by (simp add: local_updateMessage_def)
qed

lemma local_updateMessage_found:
  assumes "all_messages env = pre @ m # post" "mid \<notin> set (map msg_id pre)" "msg_id m = mid"
    "\<not> quota_exceeded env"
  shows "fst (local_updateMessage env now mid u) = Inr ()"
    and "all_messages (snd (local_updateMessage env now mid u)) = pre @ assign_Message m u # post"
proof -
  have w: "window_defined env" using assms(1) by (intro all_messages_window) simp
  have "mid \<in> msg_id ` set (all_messages env)" using assms(1,3) by auto
  then have "local_updateMessage_loop now mid u (conversations (getAll env)) \<noteq> None"
    by (simp add: updateMessage_loop_None all_messages_def)
  then obtain convs' where
    l: "local_updateMessage_loop now mid u (conversations (getAll env)) = Some convs'"
    by auto
  have eq: "concat (map (\<lambda>kc. messages (snd kc)) convs') = pre @ assign_Message m u # post"
    using updateMessage_loop_Some[OF l] assms(1,2,3)
    by (simp add: all_messages_def assign_found_split)
  show "fst (local_updateMessage env now mid u) = Inr ()"
    using l w assms(4) by (simp add: local_updateMessage_def saveAll_def)
  show "all_messages (snd (local_updateMessage env now mid u)) = pre @ assign_Message m u # post"
    using l w assms(4) eq
    by (simp add: local_updateMessage_def saveAll_def all_messages_def getAll_def)
qed

lemma insort_key_map_same:
  "(\<And>x. f (g x) = f x) \<Longrightarrow> insort_key f (g a) (map g ys) = map g (insort_key f a ys)"
  by (induction ys) auto

lemma sort_key_map_same:
  "(\<And>x. f (g x) = f x) \<Longrightarrow> sort_key f (map g xs) = map g (sort_key f xs)"
  by (induction xs) (simp_all add: insort_key_map_same)

lemma supabase_updateMessage_read:
  "fst (supabase_updateMessage user db mid u) = Inr () \<and>
   supabase_getMessages user (snd (supabase_updateMessage user db mid u)) cid =
     map (\<lambda>x. if msg_id x = mid then overwrite_supplied x u else x)
       (supabase_getMessages user db cid)"
proof -
  let ?g = "\<lambda>r. if mr_id r = mid
      then r\<lparr>mr_content := (case pm_content u of None \<Rightarrow> mr_content r | Some v \<Rightarrow> v),
             mr_metadata := (case pm_metadata u of None \<Rightarrow> mr_metadata r | Some v \<Rightarrow> v)\<rparr>
      else r"
  have t: "messages_table (snd (supabase_updateMessage user db mid u)) = map ?g (messages_table db)"
    by (simp add: supabase_updateMessage_def update_messages_def)
  have f: "filter (\<lambda>r. mr_conversation_id r = cid) (map ?g xs) =
      map ?g (filter (\<lambda>r. mr_conversation_id r = cid) xs)" for xs :: "message_row list"
    by (induction xs) auto
  have s: "sort_key mr_created_at (map ?g xs) = map ?g (sort_key mr_created_at xs)"
    for xs :: "message_row list"
    by (rule sort_key_map_same) simp
  have m: "mapToMessage (?g r) =
      (if msg_id (mapToMessage r) = mid then overwrite_supplied (mapToMessage r) u
       else mapToMessage r)" for r
    by (simp add: mapToMessage_def overwrite_supplied_def split: option.splits)
  show ?thesis
    by (simp add: supabase_getMessages_def t f s m comp_def)
      (simp add: supabase_updateMessage_def)
qed

text \<open>
  Claim C2, as stated, fails in both adapters where it says that a supplied metadata bag
  is merged with the existing one: updating the assistant message (\<open>tokens = 42\<close>, a model
  name) with a bag that holds only an error text leaves a bag with the error text alone.
\<close>

theorem updateMessage_replaces_metadata_counterexample:
  "local_getMessages trip_saved ''c1'' = [kyoto_question, kyoto_answer] \<and>
   msg_metadata kyoto_answer =
     Some \<lparr>tokens = Some 42, model = Some ''gpt-4o-mini'', toolCalls = None, error_text = None\<rparr> \<and>
   fst (local_updateMessage trip_saved 3000 ''m2'' error_only) = Inr () \<and>
   map msg_metadata (local_getMessages (snd (local_updateMessage trip_saved 3000 ''m2'' error_only)) ''c1'') =
     [None,
      Some \<lparr>tokens = None, model = None, toolCalls = None, error_text = Some ''truncated''\<rparr>] \<and>
   fst (supabase_updateMessage None remote_trip_saved ''m2'' error_only) = Inr () \<and>
   map msg_metadata
       (supabase_getMessages None (snd (supabase_updateMessage None remote_trip_saved ''m2'' error_only))
          ''c1'') =
     [Some \<lparr>tokens = None, model = None, toolCalls = None, error_text = None\<rparr>,
      Some \<lparr>tokens = None, model = None, toolCalls = None, error_text = Some ''truncated''\<rparr>]"
  by code_simp

text \<open>
  Claim C2, amended. A partial update that supplies only \<^verbatim>\<open>content\<close> and/or \<^verbatim>\<open>metadata\<close>
  overwrites exactly those fields and leaves \<^verbatim>\<open>id\<close>, \<^verbatim>\<open>role\<close> and \<^verbatim>\<open>timestamp\<close> as they were; a
  supplied metadata bag replaces the existing bag as a whole. The local adapter does this
  to the first message with the id among all stored messages and leaves every other
  message as it was, and fails with the message-not-found error, storing nothing, when no
  stored message has the id. The remote adapter does it to the message with the id,
  whatever other fields the update supplies.
\<close>

theorem updateMessage_overwrites_supplied:
  "(messageId \<notin> set (map msg_id (all_messages env)) \<longrightarrow>
      local_updateMessage env now messageId u = (Inl (MessageNotFound messageId), env)) \<and>
   (all_messages env = pre @ m # post \<and> messageId \<notin> set (map msg_id pre) \<and>
    msg_id m = messageId \<and> \<not> quota_exceeded env \<and>
    pm_id u = None \<and> pm_role u = None \<and> pm_timestamp u = None \<longrightarrow>
      fst (local_updateMessage env now messageId u) = Inr () \<and>
      all_messages (snd (local_updateMessage env now messageId u)) =
        pre @ overwrite_supplied m u # post) \<and>
   fst (supabase_updateMessage user db messageId u) = Inr () \<and>
   supabase_getMessages user (snd (supabase_updateMessage user db messageId u)) cid =
     map (\<lambda>x. if msg_id x = messageId then overwrite_supplied x u else x)
       (supabase_getMessages user db cid) \<and>
   msg_id (overwrite_supplied m u) = msg_id m \<and>
   role (overwrite_supplied m u) = role m \<and>
   timestamp (overwrite_supplied m u) = timestamp m \<and>
   content (overwrite_supplied m u) = (case pm_content u of None \<Rightarrow> content m | Some v \<Rightarrow> v) \<and>
   msg_metadata (overwrite_supplied m u) =
     (case pm_metadata u of None \<Rightarrow> msg_metadata m | Some v \<Rightarrow> Some v)"
proof -
  have a: "messageId \<notin> set (map msg_id (all_messages env)) \<longrightarrow>
      local_updateMessage env now messageId u = (Inl (MessageNotFound messageId), env)"
    using local_updateMessage_missing[of messageId env now u] by blast
  have b: "all_messages env = pre @ m # post \<and> messageId \<notin> set (map msg_id pre) \<and>
    msg_id m = messageId \<and> \<not> quota_exceeded env \<and>
    pm_id u = None \<and> pm_role u = None \<and> pm_timestamp u = None \<longrightarrow>
      fst (local_updateMessage env now messageId u) = Inr () \<and>
      all_messages (snd (local_updateMessage env now messageId u)) =
        pre @ overwrite_supplied m u # post"
    using local_updateMessage_found[of env pre m post messageId now u] assign_overwrite[of u m]
    by auto
  have c: "msg_id (overwrite_supplied m u) = msg_id m \<and>
   role (overwrite_supplied m u) = role m \<and>
   timestamp (overwrite_supplied m u) = timestamp m \<and>
   content (overwrite_supplied m u) = (case pm_content u of None \<Rightarrow> content m | Some v \<Rightarrow> v) \<and>
   msg_metadata (overwrite_supplied m u) =
     (case pm_metadata u of None \<Rightarrow> msg_metadata m | Some v \<Rightarrow> Some v)"
    by (simp add: overwrite_supplied_def)
  show ?thesis
    using a b c supabase_updateMessage_read[of user db messageId u cid] by blast
qed

theorem updateMessage_overwrites_supplied_witness:
  "''nope'' \<notin> set (map msg_id (all_messages trip_saved)) \<and>
   local_updateMessage trip_saved 3000 ''nope'' error_only =
     (Inl (MessageNotFound ''nope''), trip_saved) \<and>
   all_messages trip_saved = [kyoto_question] @ kyoto_answer # [] \<and>
   ''m2'' \<notin> set (map msg_id [kyoto_question]) \<and> msg_id kyoto_answer = ''m2'' \<and>
   \<not> quota_exceeded trip_saved \<and>
   pm_id error_only = None \<and> pm_role error_only = None \<and> pm_timestamp error_only = None \<and>
   fst (local_updateMessage trip_saved 3000 ''m2'' error_only) = Inr () \<and>
   all_messages (snd (local_updateMessage trip_saved 3000 ''m2'' error_only)) =
     [kyoto_question, overwrite_supplied kyoto_answer error_only]"
proof -
  have n: "''nope'' \<notin> set (map msg_id (all_messages trip_saved))" by code_simp
  have h: "all_messages trip_saved = [kyoto_question] @ kyoto_answer # [] \<and>
      ''m2'' \<notin> set (map msg_id [kyoto_question]) \<and> msg_id kyoto_answer = ''m2'' \<and>
      \<not> quota_exceeded trip_saved \<and>
      pm_id error_only = None \<and> pm_role error_only = None \<and> pm_timestamp error_only = None"
    by code_simp
  note a = updateMessage_overwrites_supplied[where env = trip_saved and messageId = "''nope''"
      and now = 3000 and u = error_only, THEN conjunct1]
  note b = updateMessage_overwrites_supplied[where env = trip_saved and messageId = "''m2''"
      and now = 3000 and u = error_only and pre = "[kyoto_question]" and m = kyoto_answer
      and post = "[]", THEN conjunct2, THEN conjunct1]
  show ?thesis using n h a b by simp
qed

subsection \<open>listConversations\<close>

lemma sort_key_desc:
  fixes f :: "'a \<Rightarrow> int"
  shows "sorted_wrt (\<ge>) (map f (sort_key (\<lambda>c. - f c) xs))"
proof -
  have "sorted (map (\<lambda>c. - f c) (sort_key (\<lambda>c. - f c) xs))" by (rule sorted_sort_key)
  then show ?thesis by (simp add: sorted_wrt_map)
qed

lemma hd_sort_key_least:
  fixes f :: "'a \<Rightarrow> int"
  assumes "x \<in> set xs" "\<forall>y\<in>set xs. y \<noteq> x \<longrightarrow> f x < f y"
  shows "hd (sort_key f xs) = x"
proof -
  let ?ys = "sort_key f xs"
  have ne: "?ys \<noteq> []" using assms(1) by (metis empty_iff empty_set set_sort)
  then obtain h t where ht: "?ys = h # t" by (cases ?ys) auto
  have "sorted (map f ?ys)" by (rule sorted_sort_key)
  then have le: "\<forall>z\<in>set ?ys. f h \<le> f z" using ht by auto
  have "x \<in> set ?ys" using assms(1) by simp
  then have "f h \<le> f x" using le by blast
  moreover have "h \<in> set xs" using ht by (metis list.set_intros(1) set_sort)
  ultimately have "h = x" using assms(2) by force
  then show ?thesis using ht by simp
qed

lemma set_update_distinct:
  "distinct (map fst al) \<Longrightarrow> k \<in> fst ` set al \<Longrightarrow>
     set (AList.update k v al) = insert (k, v) {p \<in> set al. fst p \<noteq> k}"
proof (induction al)
  case Nil
  then show ?case by simp
next
  case (Cons a al)
  show ?case
  proof (cases "fst a = k")
    case True
    then have "k \<notin> fst ` set al" using Cons.prems(1) by auto
    then have "{p \<in> set al. fst p \<noteq> k} = set al" by auto
    then show ?thesis using True by auto
  next
    case False
    then have "k \<in> fst ` set al" using Cons.prems(2) by auto
    then show ?thesis using Cons False by auto
  qed
qed

lemma local_listConversations_desc:
  "sorted_wrt (\<ge>) (map updatedAt (local_listConversations env))"
  by (simp add: local_listConversations_def sort_key_desc)

lemma local_listConversations_mset:
  "mset (local_listConversations env) = mset (map snd (conversations (getAll env)))"
  by (simp add: local_listConversations_def)

lemma local_listConversations_stable:
  "filter (\<lambda>c. updatedAt c = t) (local_listConversations env) =
   filter (\<lambda>c. updatedAt c = t) (map snd (conversations (getAll env)))"
  using sort_key_stable[where f = "\<lambda>c. - updatedAt c" and k = "- t"
      and xs = "map snd (conversations (getAll env))"]
  by (simp add: local_listConversations_def)

lemma local_updateConversation_first:
  assumes "distinct (map fst (conversations (getAll env)))"
    "local_getConversation env cid = Own c" "\<not> quota_exceeded env"
    "\<forall>kc\<in>set (conversations (getAll env)). fst kc \<noteq> cid \<longrightarrow> updatedAt (snd kc) < now"
  shows "local_updateConversation env now cid u =
      (Inr (), Some (env\<lparr>stored := Some ((getAll env)\<lparr>conversations :=
         AList.update cid ((assign_Conversation c u)\<lparr>updatedAt := now\<rparr>)
           (conversations (getAll env))\<rparr>)\<rparr>))"
    and "local_getConversation
           (env\<lparr>stored := Some ((getAll env)\<lparr>conversations :=
              AList.update cid ((assign_Conversation c u)\<lparr>updatedAt := now\<rparr>)
                (conversations (getAll env))\<rparr>)\<rparr>) cid =
           Own ((assign_Conversation c u)\<lparr>updatedAt := now\<rparr>)"
    and "hd (local_listConversations
           (env\<lparr>stored := Some ((getAll env)\<lparr>conversations :=
              AList.update cid ((assign_Conversation c u)\<lparr>updatedAt := now\<rparr>)
                (conversations (getAll env))\<rparr>)\<rparr>)) =
           (assign_Conversation c u)\<lparr>updatedAt := now\<rparr>"
proof -
  let ?c' = "(assign_Conversation c u)\<lparr>updatedAt := now\<rparr>"
  let ?al = "conversations (getAll env)"
  let ?env' = "env\<lparr>stored := Some ((getAll env)\<lparr>conversations := AList.update cid ?c' ?al\<rparr>)\<rparr>"
  have w: "window_defined env" using assms(2) by (rule own_window)
  have g: "get_property ?al cid = Own c" using assms(2) by (simp add: local_getConversation_def)
  have m: "map_of ?al cid = Some c" using g by (simp add: get_property_Own)
  show "local_updateConversation env now cid u = (Inr (), Some ?env')"
    using w assms(3) by (simp add: local_updateConversation_def g saveAll_def Let_def)
  have after: "conversations (getAll ?env') = AList.update cid ?c' ?al"
    using w by simp
  show "local_getConversation ?env' cid = Own ?c'"
    by (simp add: local_getConversation_def w)
  have k: "cid \<in> fst ` set ?al" using m by (metis map_of_eq_None_iff option.distinct(1))
  have s: "set (AList.update cid ?c' ?al) = insert (cid, ?c') {p \<in> set ?al. fst p \<noteq> cid}"
    using set_update_distinct[OF assms(1) k] .
  have mem: "?c' \<in> set (map snd (AList.update cid ?c' ?al))"
    using s by force
  have least: "\<forall>y\<in>set (map snd (AList.update cid ?c' ?al)).
      y \<noteq> ?c' \<longrightarrow> - updatedAt ?c' < - updatedAt y"
  proof
    fix y assume "y \<in> set (map snd (AList.update cid ?c' ?al))"
    then obtain k' where "(k', y) \<in> set (AList.update cid ?c' ?al)" by auto
    then have "(k', y) = (cid, ?c') \<or> ((k', y) \<in> set ?al \<and> k' \<noteq> cid)"
      using s by auto
    then show "y \<noteq> ?c' \<longrightarrow> - updatedAt ?c' < - updatedAt y"
      using assms(4) by auto
  qed
  show "hd (local_listConversations ?env') = ?c'"
    unfolding local_listConversations_def after
    by (rule hd_sort_key_least[OF mem least])
qed


text \<open>The remote \<^verbatim>\<open>listConversations\<close> hands \<^verbatim>\<open>mapToConversation\<close> to \<^verbatim>\<open>map\<close> unbound: it
  returns the empty list on an empty table and throws as soon as a conversation row is in
  scope.\<close>

lemma map_callback_throws:
  "xs \<noteq> [] \<Longrightarrow> map_callback (\<lambda>row. mapToConversation Undefined row (ms row)) xs =
     Inl (TypeError ''mapToMessage'')"
  by (cases xs) (simp_all add: mapToConversation_def)

lemma supabase_listConversations_throws:
  assumes "r \<in> set (conversations_table db)" "truthy user \<longrightarrow> cr_user_id r = user"
  shows "supabase_listConversations user db = Inl (TypeError ''mapToMessage'')"
proof -
  let ?vis = "if truthy user then filter (\<lambda>r. cr_user_id r = user) (conversations_table db)
              else conversations_table db"
  have "r \<in> set ?vis" using assms by auto
  then have "sort_key (\<lambda>r. - cr_updated_at r) ?vis \<noteq> []"
    by (metis empty_iff empty_set set_sort)
  then show ?thesis
    unfolding supabase_listConversations_def by (rule map_callback_throws)
qed

lemma supabase_listConversations_empty:
  "conversations_table db = [] \<Longrightarrow> supabase_listConversations user db = Inr []"
  by (simp add: supabase_listConversations_def)

text \<open>
  Claim C8, as stated, fails where it says that an updated conversation is first in the
  next listing: when \<open>b\<close>, stored before \<open>a\<close>, was updated at time 500 and \<open>a\<close> is updated
  within the same millisecond, both carry \<open>updatedAt = 500\<close> and the (stable) sort of the
  local adapter lists \<open>b\<close> first.
\<close>

theorem updateConversation_same_instant_counterexample:
  "map conv_id (local_listConversations two_conversations) = [''b'', ''a''] \<and>
   fst (local_updateConversation two_conversations 500 ''a'' no_updates) = Inr () \<and>
   map_option (map conv_id \<circ> local_listConversations)
       (snd (local_updateConversation two_conversations 500 ''a'' no_updates)) =
     Some [''b'', ''a''] \<and>
   map_option (map updatedAt \<circ> local_listConversations)
       (snd (local_updateConversation two_conversations 500 ''a'' no_updates)) =
     Some [500, 500]"
  by code_simp

text \<open>
  Claim C8, amended. \<^verbatim>\<open>listConversations\<close> of the local adapter returns the stored
  conversations, each as many times as it is stored, in descending order of \<^verbatim>\<open>updatedAt\<close>,
  those with the same \<^verbatim>\<open>updatedAt\<close> in the order in which they are stored. A successful
  \<^verbatim>\<open>updateConversation\<close> of a stored conversation, at a time later than the \<^verbatim>\<open>updatedAt\<close> of
  every other stored conversation, stores that conversation with the supplied fields
  assigned and \<^verbatim>\<open>updatedAt\<close> set to that time in the place of the old one, and the
  conversation so changed is what \<^verbatim>\<open>getConversation\<close> returns and the first element of the
  next listing. (The keys of the stored dictionary are distinct, as the keys of an object
  are.)
\<close>

theorem listConversations_order:
  "sorted_wrt (\<ge>) (map updatedAt (local_listConversations env)) \<and>
   mset (local_listConversations env) = mset (map snd (conversations (getAll env))) \<and>
   filter (\<lambda>c. updatedAt c = t) (local_listConversations env) =
     filter (\<lambda>c. updatedAt c = t) (map snd (conversations (getAll env))) \<and>
   (distinct (map fst (conversations (getAll env))) \<and>
    local_getConversation env cid = Own c \<and> \<not> quota_exceeded env \<and>
    (\<forall>kc\<in>set (conversations (getAll env)). fst kc \<noteq> cid \<longrightarrow> updatedAt (snd kc) < now) \<longrightarrow>
      (let c' = (assign_Conversation c u)\<lparr>updatedAt := now\<rparr>;
           env' = env\<lparr>stored := Some ((getAll env)\<lparr>conversations :=
                    AList.update cid c' (conversations (getAll env))\<rparr>)\<rparr>
       in local_updateConversation env now cid u = (Inr (), Some env') \<and>
          local_getConversation env' cid = Own c' \<and>
          hd (local_listConversations env') = c'))"
  unfolding Let_def
  using local_listConversations_desc[of env] local_listConversations_mset[of env]
    local_listConversations_stable[of t env] local_updateConversation_first[of env cid c now u]
  by blast

theorem listConversations_order_witness:
  "distinct (map fst (conversations (getAll two_conversations))) \<and>
   local_getConversation two_conversations ''a'' =
     Own \<lparr>conv_id = ''a'', title = Some ''New Conversation'', messages = [],
          createdAt = 200, updatedAt = 200,
          conv_metadata = Some \<lparr>totalTokens = Some 0, messageCount = Some 0, userId = None\<rparr>\<rparr> \<and>
   \<not> quota_exceeded two_conversations \<and>
   map (\<lambda>kc. (fst kc, updatedAt (snd kc))) (conversations (getAll two_conversations)) =
     [(''b'', 500), (''a'', 200)] \<and>
   map conv_id (local_listConversations two_conversations) = [''b'', ''a''] \<and>
   fst (local_updateConversation two_conversations 501 ''a'' no_updates) = Inr () \<and>
   map_option (hd \<circ> local_listConversations)
       (snd (local_updateConversation two_conversations 501 ''a'' no_updates)) =
     Some \<lparr>conv_id = ''a'', title = Some ''New Conversation'', messages = [],
           createdAt = 200, updatedAt = 501,
           conv_metadata = Some \<lparr>totalTokens = Some 0, messageCount = Some 0, userId = None\<rparr>\<rparr>"
proof -
  let ?a = "\<lparr>conv_id = ''a'', title = Some ''New Conversation'', messages = [],
           createdAt = 200, updatedAt = 200,
           conv_metadata = Some \<lparr>totalTokens = Some 0, messageCount = Some 0, userId = None\<rparr>\<rparr>"
  have d: "distinct (map fst (conversations (getAll two_conversations)))" by code_simp
  have g: "local_getConversation two_conversations ''a'' = Own ?a" by code_simp
  have q: "\<not> quota_exceeded two_conversations" by code_simp
  have ts: "map (\<lambda>kc. (fst kc, updatedAt (snd kc))) (conversations (getAll two_conversations)) =
     [(''b'', 500), (''a'', 200)]" by code_simp
  have others: "\<forall>kc\<in>set (conversations (getAll two_conversations)).
      fst kc \<noteq> ''a'' \<longrightarrow> updatedAt (snd kc) < 501" by code_simp
  have before: "map conv_id (local_listConversations two_conversations) = [''b'', ''a'']"
    by code_simp
  note l = listConversations_order[where env = two_conversations and cid = "''a''" and c = ?a
      and now = 501 and u = no_updates, THEN conjunct2, THEN conjunct2, THEN conjunct2,
      unfolded Let_def]
  have l': "local_updateConversation two_conversations 501 ''a'' no_updates =
      (Inr (), Some (two_conversations\<lparr>stored := Some ((getAll two_conversations)\<lparr>conversations :=
         AList.update ''a'' ((assign_Conversation ?a no_updates)\<lparr>updatedAt := 501\<rparr>)
           (conversations (getAll two_conversations))\<rparr>)\<rparr>))"
    and l'': "hd (local_listConversations
         (two_conversations\<lparr>stored := Some ((getAll two_conversations)\<lparr>conversations :=
         AList.update ''a'' ((assign_Conversation ?a no_updates)\<lparr>updatedAt := 501\<rparr>)
           (conversations (getAll two_conversations))\<rparr>)\<rparr>)) =
       (assign_Conversation ?a no_updates)\<lparr>updatedAt := 501\<rparr>"
    using l d g q others by blast+
  have r: "(assign_Conversation ?a no_updates)\<lparr>updatedAt := 501\<rparr> =
      \<lparr>conv_id = ''a'', title = Some ''New Conversation'', messages = [],
       createdAt = 200, updatedAt = 501,
       conv_metadata = Some \<lparr>totalTokens = Some 0, messageCount = Some 0, userId = None\<rparr>\<rparr>"
    by (simp add: assign_Conversation_def no_updates_def)
  show ?thesis
    using d g q ts before r l' l'' by simp
qed

end
